theory Spec2Isabelle
  imports Complex_Main "HOL-Library.Word"
begin

unbundle bit_operations_syntax

section \<open>Bytes, runes and errors\<close>

text \<open>
  A Go \<open>byte\<close> is an 8-bit word and a \<open>rune\<close> is an \<open>int32\<close>: a 32-bit word whose
  comparisons are the signed ones (\<open>\<le>s\<close>, \<open><s\<close>). A \<open>[]byte\<close> is a list of bytes;
  indices are natural numbers, and every indexed read or write of the source is
  bounds-checked here as the Go runtime does it: out of range is the error
  \<open>IndexOutOfRange\<close>, which stands for the runtime panic.
\<close>

type_synonym byte = "8 word"
type_synonym rune = "32 word"

text \<open>
  The error values of the package. \<open>ErrNilParameter\<close>, \<open>ErrRawBytesUnrecignized\<close> and
  \<open>ErrNotValidBoolValue\<close> are the package's error variables (named in jsonvalue.go,
  declared elsewhere); \<open>ErrorMsg\<close> carries the text of an \<open>errors.New\<close> or the format
  string of a \<open>fmt.Errorf\<close>; \<open>IndexOutOfRange\<close> is the runtime panic of an indexed
  access outside the slice.
\<close>

datatype error =
    ErrNilParameter
  | ErrRawBytesUnrecignized
  | ErrNotValidBoolValue
  | ErrorMsg string
  | IndexOutOfRange

definition readByte :: "byte list \<Rightarrow> nat \<Rightarrow> error + byte" where
  "readByte b i = (if i < length b then Inr (b ! i) else Inl IndexOutOfRange)"

definition writeByte :: "byte list \<Rightarrow> nat \<Rightarrow> byte \<Rightarrow> error + byte list" where
  "writeByte b i x = (if i < length b then Inr (b[i := x]) else Inl IndexOutOfRange)"

fun bindE :: "error + 'a \<Rightarrow> ('a \<Rightarrow> error + 'b) \<Rightarrow> error + 'b" where
  "bindE (Inl e) f = Inl e"
| "bindE (Inr x) f = f x"

section \<open>utf8.go: the escape decoder\<close>

definition runeIdentifyingBytes2 :: "byte \<Rightarrow> bool" where
  "runeIdentifyingBytes2 chr = (chr AND 0xC0 = 0xC0)"

definition runeIdentifyingBytes3 :: "byte \<Rightarrow> bool" where
  "runeIdentifyingBytes3 chr = (chr AND 0xE0 = 0xE0)"

definition runeIdentifyingBytes4 :: "byte \<Rightarrow> bool" where
  "runeIdentifyingBytes4 chr = (chr AND 0xF8 = 0xF8)"

text \<open>
  \<open>chrToHex(chr, errOut)\<close>: the out-parameter \<open>errOut\<close> is threaded as an
  \<open>error option\<close>; it is overwritten only on the failing path.
\<close>

definition chrToHex :: "byte \<Rightarrow> error option \<Rightarrow> byte \<times> error option" where
  "chrToHex chr errOut =
     (if 0x30 \<le> chr \<and> chr \<le> 0x39 then (chr - 0x30, errOut)
      else if 0x61 \<le> chr \<and> chr \<le> 0x7A then (chr - 0x61 + 10, errOut)
      else if 0x41 \<le> chr \<and> chr \<le> 0x5A then (chr - 0x41 + 10, errOut)
      else (0, Some (ErrorMsg ''invalid unicode value character: %c'')))"

text \<open>The bytes that \<open>chrToHex\<close> takes without setting the error: digits and letters.\<close>

definition hexAccepted :: "byte \<Rightarrow> bool" where
  "hexAccepted chr =
     ((0x30 \<le> chr \<and> chr \<le> 0x39) \<or> (0x61 \<le> chr \<and> chr \<le> 0x7A) \<or> (0x41 \<le> chr \<and> chr \<le> 0x5A))"

text \<open>
  \<open>memcpy(dst, src, length)\<close> returns at once when \<open>dst = src\<close>; otherwise it copies
  \<open>length\<close> bytes from \<open>src\<close> to \<open>dst\<close> inside the one buffer. Every call of the
  decoder has \<open>dst \<le> src\<close>, where C's forward copy writes the bytes that stood at
  the source before the call.
\<close>

definition memcpy :: "byte list \<Rightarrow> nat \<Rightarrow> nat \<Rightarrow> nat \<Rightarrow> byte list" where
  "memcpy b dst src le =
     (if dst = src then b
      else take dst b @ take le (drop src b) @ drop (dst + le) b)"

text \<open>
  \<open>assignWideRune(dst, r)\<close> writes the UTF-8 form of \<open>r\<close> at \<open>dst\<close> and returns the
  number of bytes written. The masked values are non-negative, so the arithmetic
  shift of the signed rune is \<open>drop_bit\<close>; \<open>byte(...)\<close> keeps the low eight bits.
\<close>

definition assignWideRune :: "byte list \<Rightarrow> nat \<Rightarrow> rune \<Rightarrow> error + (byte list \<times> nat)" where
  "assignWideRune b dst r =
     (if r \<le>s 0x7FF then
        bindE (writeByte b (dst + 0) (ucast (drop_bit 6 (r AND 0x7C0)) + 0xC0)) (\<lambda>b.
        bindE (writeByte b (dst + 1) (ucast (drop_bit 0 (r AND 0x03F)) + 0x80)) (\<lambda>b.
        Inr (b, 2)))
      else if r \<le>s 0xFFFF then
        bindE (writeByte b (dst + 0) (ucast (drop_bit 12 (r AND 0xF000)) + 0xE0)) (\<lambda>b.
        bindE (writeByte b (dst + 1) (ucast (drop_bit 6 (r AND 0x0FC0)) + 0x80)) (\<lambda>b.
        bindE (writeByte b (dst + 2) (ucast (drop_bit 0 (r AND 0x003F)) + 0x80)) (\<lambda>b.
        Inr (b, 3))))
      else
        bindE (writeByte b (dst + 0) (ucast (drop_bit 18 (r AND 0x1C0000)) + 0xF0)) (\<lambda>b.
        bindE (writeByte b (dst + 1) (ucast (drop_bit 12 (r AND 0x03F000)) + 0x80)) (\<lambda>b.
        bindE (writeByte b (dst + 2) (ucast (drop_bit 6 (r AND 0x000FC0)) + 0x80)) (\<lambda>b.
        bindE (writeByte b (dst + 3) (ucast (drop_bit 0 (r AND 0x00003F)) + 0x80)) (\<lambda>b.
        Inr (b, 4))))))"

text \<open>
  The value of four hexadecimal digits: \<open>(rune(b3) << 12) + (rune(b2) << 8) +
  (rune(b1) << 4) + rune(b0)\<close>.
\<close>

definition hex4 :: "byte \<Rightarrow> byte \<Rightarrow> byte \<Rightarrow> byte \<Rightarrow> rune" where
  "hex4 b3 b2 b1 b0 =
     push_bit 12 (ucast b3) + push_bit 8 (ucast b2) + push_bit 4 (ucast b1) + ucast b0"

text \<open>
  \<open>handleEscapeUnicodeStart(i, end, sectEnd)\<close>: the buffer and the two cursors
  \<open>*i\<close>, \<open>*sectEnd\<close> are passed in and returned updated.
\<close>

definition handleEscapeUnicodeStart ::
  "byte list \<Rightarrow> nat \<Rightarrow> nat \<Rightarrow> nat \<Rightarrow> error + (byte list \<times> nat \<times> nat)" where
  "handleEscapeUnicodeStart b i end sectEnd =
     (if end - i \<le> 5 then Inl (ErrorMsg ''escape symbol not followed by another character'')
      else
        bindE (readByte b (i + 2)) (\<lambda>c3.
        bindE (readByte b (i + 3)) (\<lambda>c2.
        bindE (readByte b (i + 4)) (\<lambda>c1.
        bindE (readByte b (i + 5)) (\<lambda>c0.
        let (b3, err) = chrToHex c3 None;
            (b2, err) = chrToHex c2 err;
            (b1, err) = chrToHex c1 err;
            (b0, err) = chrToHex c0 err
        in case err of
             Some e \<Rightarrow> Inl e
           | None \<Rightarrow>
              (let r = hex4 b3 b2 b1 b0 in
               if r \<le>s 0xD7FF \<or> 0xE000 \<le>s r then
                 bindE (assignWideRune b sectEnd r) (\<lambda>(b, le).
                 Inr (b, i + 6, sectEnd + le))
               else if end - i \<le> 11 then Inl (ErrorMsg ''insufficient UTF-16 data at offset %d'')
               else
                 bindE (readByte b (i + 6)) (\<lambda>d6.
                 bindE (if d6 \<noteq> 0x5C then Inr True
                        else bindE (readByte b (i + 7)) (\<lambda>d7. Inr (d7 \<noteq> 0x75))) (\<lambda>notEscape.
                 if notEscape
                 then Inl (ErrorMsg ''expect unicode escape character at position %d but not'')
                 else
                   bindE (readByte b (i + 8)) (\<lambda>e3.
                   bindE (readByte b (i + 9)) (\<lambda>e2.
                   bindE (readByte b (i + 10)) (\<lambda>e1.
                   bindE (readByte b (i + 11)) (\<lambda>e0.
                   let (ex3, err) = chrToHex e3 None;
                       (ex2, err) = chrToHex e2 err;
                       (ex1, err) = chrToHex e1 err;
                       (ex0, err) = chrToHex e0 err
                   in case err of
                        Some e \<Rightarrow> Inl e
                      | None \<Rightarrow>
                         (let ex = hex4 ex3 ex2 ex1 ex0 - 0xDC00 in
                          if 0x03FF <s ex
                          then Inl (ErrorMsg
                            ''expect second UTF-16 encoding but got 0x04%X at position %d'')
                          else
                            (let r = push_bit 10 (r - 0xD800) + ex + 0x10000 in
                             bindE (assignWideRune b sectEnd r) (\<lambda>(b, le).
                             Inr (b, i + 12, sectEnd + le))))))))))))))))"

text \<open>
  \<open>handleEscapeStart(i, end, sectEnd)\<close>: called with \<open>it.b[*i]\<close> the backslash.
\<close>

definition handleEscapeStart ::
  "byte list \<Rightarrow> nat \<Rightarrow> nat \<Rightarrow> nat \<Rightarrow> error + (byte list \<times> nat \<times> nat)" where
  "handleEscapeStart b i end sectEnd =
     (if end - i < 1 then Inl (ErrorMsg ''escape symbol not followed by another character'')
      else
        bindE (readByte b (i + 1)) (\<lambda>chr.
        if chr = 0x22 \<or> chr = 0x27 \<or> chr = 0x2F \<or> chr = 0x5C then
          bindE (writeByte b sectEnd chr) (\<lambda>b. Inr (b, i + 2, sectEnd + 1))
        else if chr = 0x62 then
          bindE (writeByte b sectEnd 0x08) (\<lambda>b. Inr (b, i + 2, sectEnd + 1))
        else if chr = 0x66 then
          bindE (writeByte b sectEnd 0x0C) (\<lambda>b. Inr (b, i + 2, sectEnd + 1))
        else if chr = 0x72 then
          bindE (writeByte b sectEnd 0x0D) (\<lambda>b. Inr (b, i + 2, sectEnd + 1))
        else if chr = 0x6E then
          bindE (writeByte b sectEnd 0x0A) (\<lambda>b. Inr (b, i + 2, sectEnd + 1))
        else if chr = 0x74 then
          bindE (writeByte b sectEnd 0x09) (\<lambda>b. Inr (b, i + 2, sectEnd + 1))
        else if chr = 0x75 then handleEscapeUnicodeStart b i end sectEnd
        else Inl (ErrorMsg ''unreconized character 0x%02X after escape symbol'')))"

text \<open>
  The closure \<open>shift(&i, le)\<close> of \<open>parseStrFromBytes\<close>: it fails when fewer than
  \<open>le\<close> bytes remain before \<open>end\<close>, else copies the block down to \<open>sectEnd\<close>.
\<close>

definition shift ::
  "byte list \<Rightarrow> nat \<Rightarrow> nat \<Rightarrow> nat \<Rightarrow> nat \<Rightarrow> error + (byte list \<times> nat \<times> nat)" where
  "shift b i end sectEnd le =
     (if end - i < le then Inl (ErrorMsg ''illegal UTF8 string'')
      else Inr (memcpy b sectEnd i le, i + le, sectEnd + le))"

text \<open>One pass of the body of the \<open>for\<close> loop of \<open>parseStrFromBytes\<close>.\<close>

definition parseStep ::
  "byte list \<Rightarrow> nat \<Rightarrow> nat \<Rightarrow> nat \<Rightarrow> error + (byte list \<times> nat \<times> nat)" where
  "parseStep b i end sectEnd =
     bindE (readByte b i) (\<lambda>chr.
       if chr \<le> 0x7F then
         (if chr = 0x5C then handleEscapeStart b i end sectEnd
          else Inr (b, i + 1, sectEnd + 1))
       else if runeIdentifyingBytes2 chr then shift b i end sectEnd 2
       else if runeIdentifyingBytes3 chr then shift b i end sectEnd 3
       else if runeIdentifyingBytes4 chr then shift b i end sectEnd 4
       else Inl (ErrorMsg ''illegal UTF8 string''))"

text \<open>
  A pass advances when it fails or returns a reading cursor beyond the one it was
  given; the termination of the loop rests on it.
\<close>

definition advances :: "nat \<Rightarrow> error + (byte list \<times> nat \<times> nat) \<Rightarrow> bool" where
  "advances i r = (case r of Inl e \<Rightarrow> True | Inr (b', i', s') \<Rightarrow> i < i')"

text \<open>
  The \<open>for\<close> loop of \<open>parseStrFromBytes\<close>: while \<open>i < offset + length\<close>, run the body;
  an error leaves the loop at once.
\<close>

function parseLoop :: "byte list \<Rightarrow> nat \<Rightarrow> nat \<Rightarrow> nat \<Rightarrow> error + (byte list \<times> nat)" where
  "parseLoop b i end sectEnd =
     (if i < end then
        (case parseStep b i end sectEnd of
           Inl e \<Rightarrow> Inl e
         | Inr (b', i', sectEnd') \<Rightarrow> parseLoop b' i' end sectEnd')
      else Inr (b, sectEnd))"
  by pat_completeness auto

text \<open>
  \<open>parseStrFromBytes(offset, length)\<close>: decodes the span in place and returns the
  length of the decoded text, which then stands at \<open>offset\<close>; the result of the model
  is the buffer after the call together with that length. The source's
  \<open>return -1, err\<close> is \<open>Inl err\<close>.
\<close>

definition parseStrFromBytes :: "byte list \<Rightarrow> nat \<Rightarrow> nat \<Rightarrow> error + (byte list \<times> nat)" where
  "parseStrFromBytes b offset len =
     (case parseLoop b offset (offset + len) offset of
        Inl e \<Rightarrow> Inl e
      | Inr (b', sectEnd) \<Rightarrow> Inr (b', sectEnd - offset))"

text \<open>The decoded text of a successful call: \<open>it.b[offset : offset + resLen]\<close>.\<close>

definition decoded :: "byte list \<Rightarrow> nat \<Rightarrow> nat \<Rightarrow> error + byte list" where
  "decoded b offset len =
     (case parseStrFromBytes b offset len of
        Inl e \<Rightarrow> Inl e
      | Inr (b', resLen) \<Rightarrow> Inr (take resLen (drop offset b')))"

section \<open>jsonvalue.go: the value node\<close>

text \<open>
  \<open>int64\<close> and \<open>uint64\<close> are 64-bit words; \<open>sint\<close> reads the first, \<open>unat\<close> the
  second, and the conversions \<open>uint64(x)\<close>, \<open>int64(x)\<close> between them keep the bit
  pattern (\<open>ucast\<close>). Go's \<open>int\<close> and \<open>uint\<close> are taken at their 64-bit width. A Go
  \<open>string\<close> is its sequence of bytes.

  \<open>float64\<close> is the type parameter \<open>'f\<close>: the theory fixes no floating-point
  arithmetic. What the code does with a float (the comparison \<open>f < 0\<close> and the
  conversions \<open>int64(f)\<close>, \<open>uint64(f)\<close>, \<open>float64(i)\<close>, \<open>float64(u)\<close>, \<open>float32(f)\<close>)
  enters through the record \<open>env\<close> below, with the zero value \<open>0\<close> of the type.
\<close>

type_synonym int64 = "64 word"
type_synonym uint64 = "64 word"

text \<open>\<open>jsonparser.ValueType\<close>, in the order of the library's enumeration.\<close>

datatype ValueType = NotExist | String | Number | Object | Array | Boolean | Null | Unknown

text \<open>
  The struct \<open>V\<close> with its nested structs \<open>status\<close> and \<open>value\<close> flattened. The
  nested struct \<open>children\<close> is the record \<open>children\<close> further down: no function of
  this section reads or writes it.
\<close>

record 'f V =
  valueType :: ValueType
  valueBytes :: "byte list"
  parsed :: bool
  negative :: bool
  floated :: bool
  str :: "byte list"
  i64 :: int64
  u64 :: uint64
  boolean :: bool
  f64 :: 'f

text \<open>
  What jsonvalue.go calls and the source files at hand do not define: the numeric and
  string parsers of the package (\<open>parseFloat\<close>, \<open>parseInt\<close>, \<open>parseUint\<close>, \<open>parseString\<close>;
  each returns its value together with an optional error, as the Go functions do),
  the float operations of the language, and \<open>newFromObject\<close>, \<open>newFromArray\<close>, whose
  bodies iterate with the external library jsonparser (\<open>ObjectEach\<close>, \<open>ArrayEach\<close>).
  Every function below takes them as the parameter \<open>ext\<close>.
\<close>

record 'f env =
  parseFloat :: "byte list \<Rightarrow> 'f \<times> error option"
  parseInt :: "byte list \<Rightarrow> int64 \<times> error option"
  parseUint :: "byte list \<Rightarrow> uint64 \<times> error option"
  parseString :: "byte list \<Rightarrow> byte list \<times> byte list \<times> error option"
  newFromObject :: "byte list \<Rightarrow> error + 'f V"
  newFromArray :: "byte list \<Rightarrow> error + 'f V"
  float64_lt_zero :: "'f \<Rightarrow> bool"
  int64_of_float64 :: "'f \<Rightarrow> int64"
  uint64_of_float64 :: "'f \<Rightarrow> uint64"
  float64_of_int64 :: "int64 \<Rightarrow> 'f"
  float64_of_uint64 :: "uint64 \<Rightarrow> 'f"
  float32_of_float64 :: "'f \<Rightarrow> 'f"

text \<open>The bytes of a string literal of the source.\<close>

definition bytesOf :: "string \<Rightarrow> byte list" where
  "bytesOf s = map of_char s"

definition new :: "('f::zero) V" where
  "new = \<lparr>valueType = NotExist, valueBytes = [], parsed = False, negative = False,
          floated = False, str = [], i64 = 0, u64 = 0, boolean = False, f64 = 0\<rparr>"

text \<open>
  \<open>parseNumber\<close> mutates the node and returns an error; the model returns the node
  after the call with the optional error. \<open>Inl\<close> is the panic of \<open>b[0]\<close> on an empty
  \<open>valueBytes\<close>. \<open>bytes.Contains(b, []byte("."))\<close> is membership of the byte \<open>0x2E\<close>.
\<close>

definition parseNumber :: "'f env \<Rightarrow> 'f V \<Rightarrow> error + ('f V \<times> error option)" where
  "parseNumber ext v =
     (let b = valueBytes v in
      if 0x2E \<in> set b then
        (let v = v\<lparr>floated := True\<rparr>;
             (f, err) = parseFloat ext b;
             v = v\<lparr>f64 := f\<rparr>
         in case err of
              Some e \<Rightarrow> Inr (v, Some e)
            | None \<Rightarrow>
               (let v = v\<lparr>parsed := True\<rparr>;
                    v = v\<lparr>negative := float64_lt_zero ext (f64 v)\<rparr>;
                    v = v\<lparr>i64 := int64_of_float64 ext (f64 v)\<rparr>;
                    v = v\<lparr>u64 := uint64_of_float64 ext (f64 v)\<rparr>
                in Inr (v, None)))
      else
        bindE (readByte b 0) (\<lambda>b0.
        if 0x2D = b0 then
          (let v = v\<lparr>negative := True\<rparr>;
               (i, err) = parseInt ext b;
               v = v\<lparr>i64 := i\<rparr>
           in case err of
                Some e \<Rightarrow> Inr (v, Some e)
              | None \<Rightarrow>
                 (let v = v\<lparr>parsed := True\<rparr>;
                      v = v\<lparr>u64 := ucast (i64 v)\<rparr>;
                      v = v\<lparr>f64 := float64_of_int64 ext (i64 v)\<rparr>
                  in Inr (v, None)))
        else
          (let v = v\<lparr>negative := False\<rparr>;
               (u, err) = parseUint ext b;
               v = v\<lparr>u64 := u\<rparr>
           in case err of
                Some e \<Rightarrow> Inr (v, Some e)
              | None \<Rightarrow>
                 (let v = v\<lparr>parsed := True\<rparr>;
                      v = v\<lparr>i64 := ucast (u64 v)\<rparr>;
                      v = v\<lparr>f64 := float64_of_uint64 ext (u64 v)\<rparr>
                  in Inr (v, None)))))"

definition newFromNumber :: "byte list \<Rightarrow> error + ('f::zero) V" where
  "newFromNumber b = Inr (new\<lparr>valueType := Number, valueBytes := b\<rparr>)"

definition newFromTrue :: "byte list \<Rightarrow> error + ('f::zero) V" where
  "newFromTrue b =
     (if length b \<noteq> 4 \<or> b \<noteq> bytesOf ''true'' then Inl ErrNotValidBoolValue
      else Inr (new\<lparr>parsed := True, valueType := Boolean,
                     valueBytes := bytesOf ''true'', boolean := True\<rparr>))"

definition newFromFalse :: "byte list \<Rightarrow> error + ('f::zero) V" where
  "newFromFalse b =
     (if length b \<noteq> 5 \<or> b \<noteq> bytesOf ''false'' then Inl ErrNotValidBoolValue
      else Inr (new\<lparr>parsed := True, valueType := Boolean,
                     valueBytes := bytesOf ''false'', boolean := False\<rparr>))"

definition newFromNull :: "byte list \<Rightarrow> error + ('f::zero) V" where
  "newFromNull b =
     (if length b \<noteq> 4 \<or> b \<noteq> bytesOf ''null'' then Inl ErrNotValidBoolValue
      else Inr (new\<lparr>parsed := True, valueType := Null\<rparr>))"

text \<open>The whitespace bytes of \<open>Unmarshal\<close>: space, \<open>\r\<close>, \<open>\n\<close>, \<open>\t\<close>, \<open>\b\<close>.\<close>

definition isWhitespace :: "byte \<Rightarrow> bool" where
  "isWhitespace c = (c = 0x20 \<or> c = 0x0D \<or> c = 0x0A \<or> c = 0x09 \<or> c = 0x08)"

definition isNumberStart :: "byte \<Rightarrow> bool" where
  "isNumberStart c = ((0x30 \<le> c \<and> c \<le> 0x39) \<or> c = 0x2D)"

text \<open>
  The loop \<open>for i, c := range b\<close> of \<open>Unmarshal\<close>, on the rest \<open>b[i:]\<close> of the input:
  a whitespace byte goes on to the next byte, any other byte returns.
\<close>

fun UnmarshalRange :: "('f::zero) env \<Rightarrow> byte list \<Rightarrow> error + 'f V" where
  "UnmarshalRange ext [] = Inl ErrRawBytesUnrecignized"
| "UnmarshalRange ext (c # rest) =
     (if isWhitespace c then UnmarshalRange ext rest
      else if c = 0x7B then newFromObject ext (c # rest)
      else if c = 0x5B then newFromArray ext (c # rest)
      else if isNumberStart c then
        bindE (newFromNumber (c # rest)) (\<lambda>ret.
        bindE (parseNumber ext ret) (\<lambda>(ret, err).
        case err of Some e \<Rightarrow> Inl e | None \<Rightarrow> Inr ret))
      else if c = 0x22 then
        (let ret = new;
             ret = ret\<lparr>valueType := String\<rparr>;
             (s, vb, err) = parseString ext (c # rest);
             ret = ret\<lparr>str := s, valueBytes := vb\<rparr>
         in case err of
              Some e \<Rightarrow> Inl e
            | None \<Rightarrow> Inr (ret\<lparr>parsed := True\<rparr>))
      else if c = 0x74 then newFromTrue (c # rest)
      else if c = 0x66 then newFromFalse (c # rest)
      else if c = 0x6E then newFromNull (c # rest)
      else Inl ErrRawBytesUnrecignized)"

text \<open>
  \<open>Unmarshal\<close>. A nil slice and an empty slice both have length 0: both are \<open>[]\<close>.
\<close>

definition Unmarshal :: "('f::zero) env \<Rightarrow> byte list \<Rightarrow> error + 'f V" where
  "Unmarshal ext b = (if b = [] then Inl ErrNilParameter else UnmarshalRange ext b)"

subsection \<open>Type predicates\<close>

definition IsObject :: "'f V \<Rightarrow> bool" where
  "IsObject v = (valueType v = Object)"

definition IsArray :: "'f V \<Rightarrow> bool" where
  "IsArray v = (valueType v = Array)"

definition IsString :: "'f V \<Rightarrow> bool" where
  "IsString v = (valueType v = String)"

definition IsNumber :: "'f V \<Rightarrow> bool" where
  "IsNumber v = (valueType v = Number)"

definition IsBoolean :: "'f V \<Rightarrow> bool" where
  "IsBoolean v = (valueType v = Boolean)"

definition IsNull :: "'f V \<Rightarrow> bool" where
  "IsNull v = (valueType v = Null)"

text \<open>
  The lazy parse of the accessors, \<open>if false == v.status.parsed { v.parseNumber() }\<close>:
  the error of \<open>parseNumber\<close> is dropped, the node keeps what the call wrote.
\<close>

definition lazyParse :: "'f env \<Rightarrow> 'f V \<Rightarrow> error + 'f V" where
  "lazyParse ext v =
     (if \<not> parsed v then bindE (parseNumber ext v) (\<lambda>(v, err). Inr v) else Inr v)"

text \<open>
  The predicates and accessors that may parse return their value together with the
  node after the call.
\<close>

definition IsFloat :: "'f env \<Rightarrow> 'f V \<Rightarrow> error + (bool \<times> 'f V)" where
  "IsFloat ext v =
     (if valueType v \<noteq> Number then Inr (False, v)
      else bindE (lazyParse ext v) (\<lambda>v. Inr (floated v, v)))"

definition IsInteger :: "'f env \<Rightarrow> 'f V \<Rightarrow> error + (bool \<times> 'f V)" where
  "IsInteger ext v =
     (if valueType v \<noteq> Number then Inr (False, v)
      else if \<not> parsed v then
        bindE (parseNumber ext v) (\<lambda>(v, err).
        case err of Some e \<Rightarrow> Inr (False, v) | None \<Rightarrow> Inr (\<not> floated v, v))
      else Inr (\<not> floated v, v))"

definition IsNegative :: "'f env \<Rightarrow> 'f V \<Rightarrow> error + (bool \<times> 'f V)" where
  "IsNegative ext v =
     (if valueType v \<noteq> Number then Inr (False, v)
      else bindE (lazyParse ext v) (\<lambda>v. Inr (negative v, v)))"

definition IsPositive :: "'f env \<Rightarrow> 'f V \<Rightarrow> error + (bool \<times> 'f V)" where
  "IsPositive ext v =
     (if valueType v \<noteq> Number then Inr (False, v)
      else if \<not> parsed v then
        bindE (parseNumber ext v) (\<lambda>(v, err).
        case err of Some e \<Rightarrow> Inr (False, v) | None \<Rightarrow> Inr (\<not> negative v, v))
      else Inr (\<not> negative v, v))"

definition GreaterThanInt64Max :: "'f env \<Rightarrow> 'f V \<Rightarrow> error + (bool \<times> 'f V)" where
  "GreaterThanInt64Max ext v =
     (if valueType v \<noteq> Number then Inr (False, v)
      else
        bindE (lazyParse ext v) (\<lambda>v.
        if negative v then Inr (False, v)
        else Inr (0x7fffffffffffffff < u64 v, v)))"

subsection \<open>Value accessors\<close>

text \<open>
  Modelled from the spec: the leaf constructors \<open>NewInt\<close> and \<open>NewInt64\<close> are not in
  the source files at hand. The spec lists them among the leaf constructors, one per
  integer width, that build a number node of the given value;
  \<open>getNumberFromNotNumberValue\<close> calls them at \<open>0\<close> only, and that node is modelled: a
  parsed Number node of text \<open>0\<close> whose cached values are all zero.
\<close>

definition NewInt_0 :: "('f::zero) V" where
  "NewInt_0 = new\<lparr>valueType := Number, valueBytes := bytesOf ''0'', parsed := True\<rparr>"

definition NewInt64_0 :: "('f::zero) V" where
  "NewInt64_0 = new\<lparr>valueType := Number, valueBytes := bytesOf ''0'', parsed := True\<rparr>"

definition getNumberFromNotNumberValue :: "('f::zero) env \<Rightarrow> 'f V \<Rightarrow> error + 'f V" where
  "getNumberFromNotNumberValue ext v =
     (if \<not> IsString v then Inr NewInt_0
      else
        bindE (newFromNumber (str v)) (\<lambda>ret.
        bindE (parseNumber ext ret) (\<lambda>(ret, err).
        case err of Some e \<Rightarrow> Inr NewInt64_0 | None \<Rightarrow> Inr ret)))"

definition Bool :: "'f V \<Rightarrow> bool" where
  "Bool v = boolean v"

text \<open>
  Each numeric accessor calls itself on the node that \<open>getNumberFromNotNumberValue\<close>
  returns; that node is a Number, so the inner call takes the other branch. The
  receiver is not written on that path: the node returned is the receiver itself.
  The accessor \<open>Int\<close> is named \<open>Int'\<close> here (\<open>Int\<close> is HOL's intersection).
\<close>

function Int' :: "('f::zero) env \<Rightarrow> 'f V \<Rightarrow> error + (int64 \<times> 'f V)" where
  "Int' ext v =
     (if valueType v \<noteq> Number then
        (case getNumberFromNotNumberValue ext v of
           Inl e \<Rightarrow> Inl e
         | Inr n \<Rightarrow> (case Int' ext n of Inl e \<Rightarrow> Inl e | Inr (x, n') \<Rightarrow> Inr (x, v)))
      else bindE (lazyParse ext v) (\<lambda>v. Inr (i64 v, v)))"
  by pat_completeness auto

function Uint :: "('f::zero) env \<Rightarrow> 'f V \<Rightarrow> error + (uint64 \<times> 'f V)" where
  "Uint ext v =
     (if valueType v \<noteq> Number then
        (case getNumberFromNotNumberValue ext v of
           Inl e \<Rightarrow> Inl e
         | Inr n \<Rightarrow> (case Uint ext n of Inl e \<Rightarrow> Inl e | Inr (x, n') \<Rightarrow> Inr (x, v)))
      else bindE (lazyParse ext v) (\<lambda>v. Inr (u64 v, v)))"
  by pat_completeness auto

function Int64 :: "('f::zero) env \<Rightarrow> 'f V \<Rightarrow> error + (int64 \<times> 'f V)" where
  "Int64 ext v =
     (if valueType v \<noteq> Number then
        (case getNumberFromNotNumberValue ext v of
           Inl e \<Rightarrow> Inl e
         | Inr n \<Rightarrow> (case Int64 ext n of Inl e \<Rightarrow> Inl e | Inr (x, n') \<Rightarrow> Inr (x, v)))
      else bindE (lazyParse ext v) (\<lambda>v. Inr (i64 v, v)))"
  by pat_completeness auto

function Uint64 :: "('f::zero) env \<Rightarrow> 'f V \<Rightarrow> error + (uint64 \<times> 'f V)" where
  "Uint64 ext v =
     (if valueType v \<noteq> Number then
        (case getNumberFromNotNumberValue ext v of
           Inl e \<Rightarrow> Inl e
         | Inr n \<Rightarrow> (case Uint64 ext n of Inl e \<Rightarrow> Inl e | Inr (x, n') \<Rightarrow> Inr (x, v)))
      else bindE (lazyParse ext v) (\<lambda>v. Inr (u64 v, v)))"
  by pat_completeness auto

function Int32 :: "('f::zero) env \<Rightarrow> 'f V \<Rightarrow> error + (32 word \<times> 'f V)" where
  "Int32 ext v =
     (if valueType v \<noteq> Number then
        (case getNumberFromNotNumberValue ext v of
           Inl e \<Rightarrow> Inl e
         | Inr n \<Rightarrow> (case Int32 ext n of Inl e \<Rightarrow> Inl e | Inr (x, n') \<Rightarrow> Inr (x, v)))
      else bindE (lazyParse ext v) (\<lambda>v. Inr (ucast (i64 v), v)))"
  by pat_completeness auto

function Uint32 :: "('f::zero) env \<Rightarrow> 'f V \<Rightarrow> error + (32 word \<times> 'f V)" where
  "Uint32 ext v =
     (if valueType v \<noteq> Number then
        (case getNumberFromNotNumberValue ext v of
           Inl e \<Rightarrow> Inl e
         | Inr n \<Rightarrow> (case Uint32 ext n of Inl e \<Rightarrow> Inl e | Inr (x, n') \<Rightarrow> Inr (x, v)))
      else bindE (lazyParse ext v) (\<lambda>v. Inr (ucast (u64 v), v)))"
  by pat_completeness auto

function Float64 :: "('f::zero) env \<Rightarrow> 'f V \<Rightarrow> error + ('f \<times> 'f V)" where
  "Float64 ext v =
     (if valueType v \<noteq> Number then
        (case getNumberFromNotNumberValue ext v of
           Inl e \<Rightarrow> Inl e
         | Inr n \<Rightarrow> (case Float64 ext n of Inl e \<Rightarrow> Inl e | Inr (x, n') \<Rightarrow> Inr (x, v)))
      else bindE (lazyParse ext v) (\<lambda>v. Inr (f64 v, v)))"
  by pat_completeness auto

function Float32 :: "('f::zero) env \<Rightarrow> 'f V \<Rightarrow> error + ('f \<times> 'f V)" where
  "Float32 ext v =
     (if valueType v \<noteq> Number then
        (case getNumberFromNotNumberValue ext v of
           Inl e \<Rightarrow> Inl e
         | Inr n \<Rightarrow> (case Float32 ext n of Inl e \<Rightarrow> Inl e | Inr (x, n') \<Rightarrow> Inr (x, v)))
      else bindE (lazyParse ext v) (\<lambda>v. Inr (float32_of_float64 ext (f64 v), v)))"
  by pat_completeness auto

section \<open>jsonvalue.go: the caseless key index of an object\<close>

text \<open>
  The nested struct \<open>children\<close> of \<open>V\<close>; \<open>'v\<close> is the type of a child node. A Go map
  is a partial function, the key set \<open>map[string]struct{}\<close> of a bucket is a set of
  strings. \<open>strings.ToLower\<close> is the parameter \<open>toLower\<close>.
\<close>

record 'v children =
  object :: "byte list \<rightharpoonup> 'v"
  array :: "'v list"
  lowerCaseKeys :: "byte list \<rightharpoonup> byte list set"

definition addCaselessKey ::
  "(byte list \<Rightarrow> byte list) \<Rightarrow> 'v children \<Rightarrow> byte list \<Rightarrow> 'v children" where
  "addCaselessKey toLower v k =
     (let lowerK = toLower k;
          keys = (case lowerCaseKeys v lowerK of None \<Rightarrow> {} | Some keys \<Rightarrow> keys)
      in v\<lparr>lowerCaseKeys := (lowerCaseKeys v)(lowerK \<mapsto> insert k keys)\<rparr>)"

definition delCaselessKey ::
  "(byte list \<Rightarrow> byte list) \<Rightarrow> 'v children \<Rightarrow> byte list \<Rightarrow> 'v children" where
  "delCaselessKey toLower v k =
     (let lowerK = toLower k in
      case lowerCaseKeys v lowerK of
        None \<Rightarrow> v
      | Some keys \<Rightarrow>
         (let keys = keys - {k} in
          if keys = {} then v\<lparr>lowerCaseKeys := (lowerCaseKeys v)(lowerK := None)\<rparr>
          else v\<lparr>lowerCaseKeys := (lowerCaseKeys v)(lowerK \<mapsto> keys)\<rparr>))"

text \<open>
  Modelled from the spec: the functions that insert a key into an object and delete
  one (\<open>setToObjectChildren\<close>, called by \<open>newFromObject\<close>, and the deletion) are not
  in the source files at hand. The spec has the index maintained together with every
  insert and delete of the primary mapping: the insert stores the child and calls
  \<open>addCaselessKey\<close>, the delete removes the key and calls \<open>delCaselessKey\<close>.
\<close>

definition setToObjectChildren ::
  "(byte list \<Rightarrow> byte list) \<Rightarrow> 'v children \<Rightarrow> byte list \<Rightarrow> 'v \<Rightarrow> 'v children" where
  "setToObjectChildren toLower v k child =
     addCaselessKey toLower (v\<lparr>object := (object v)(k \<mapsto> child)\<rparr>) k"

definition delFromObjectChildren ::
  "(byte list \<Rightarrow> byte list) \<Rightarrow> 'v children \<Rightarrow> byte list \<Rightarrow> 'v children" where
  "delFromObjectChildren toLower v k =
     delCaselessKey toLower (v\<lparr>object := (object v)(k := None)\<rparr>) k"

text \<open>The children of \<open>newObject()\<close>: two empty maps.\<close>

definition newObject :: "'v children" where
  "newObject = \<lparr>object = Map.empty, array = [], lowerCaseKeys = Map.empty\<rparr>"

text \<open>
  The invariant of the spec, the index being the original-case keys present, filed
  under their lowercase form: every key of the primary mapping is in the bucket
  stored under its lowercase form; no bucket of the index is empty; and a bucket
  holds nothing but keys of the primary mapping whose lowercase form is the one the
  bucket is stored under. A bucket is a set: a key is in it once.
\<close>

definition caselessInvariant :: "(byte list \<Rightarrow> byte list) \<Rightarrow> 'v children \<Rightarrow> bool" where
  "caselessInvariant toLower v =
     ((\<forall>k. k \<in> dom (object v) \<longrightarrow>
          (\<exists>keys. lowerCaseKeys v (toLower k) = Some keys \<and> k \<in> keys)) \<and>
      (\<forall>lowerK keys. lowerCaseKeys v lowerK = Some keys \<longrightarrow>
          keys \<noteq> {} \<and> (\<forall>k. k \<in> keys \<longrightarrow> k \<in> dom (object v) \<and> toLower k = lowerK)))"

section \<open>A reference environment\<close>

text \<open>
  Modelled from the spec: \<open>parseUint\<close>, \<open>parseInt\<close>, \<open>parseFloat\<close> and \<open>parseString\<close>
  are not in the source files at hand. The spec has the numeric materializer accept
  digits only, a single leading \<open>-\<close> and a well-formed fraction, and fail on anything
  else; numerals beyond the signed 64-bit range are accepted as unsigned ones. The
  definitions below follow that; they serve to run the model on concrete inputs.
  A float is a real number here, \<open>int64(f)\<close> and \<open>uint64(f)\<close> truncate toward zero, and
  the text of a decimal numeral denotes its exact value.
\<close>

fun digitsValue :: "byte list \<Rightarrow> nat \<Rightarrow> nat option" where
  "digitsValue [] acc = Some acc"
| "digitsValue (c # cs) acc =
     (if 0x30 \<le> c \<and> c \<le> 0x39 then digitsValue cs (acc * 10 + unat (c - 0x30)) else None)"

definition refParseUint :: "byte list \<Rightarrow> uint64 \<times> error option" where
  "refParseUint b =
     (if b = [] then (0, Some (ErrorMsg ''invalid syntax''))
      else case digitsValue b 0 of
             None \<Rightarrow> (0, Some (ErrorMsg ''invalid syntax''))
           | Some n \<Rightarrow>
              if n < 2 ^ 64 then (of_nat n, None)
              else (- 1, Some (ErrorMsg ''value out of range'')))"

definition refParseInt :: "byte list \<Rightarrow> int64 \<times> error option" where
  "refParseInt b =
     (let neg = (take 1 b = [0x2D]);
          ds = (if neg then drop 1 b else b)
      in if ds = [] then (0, Some (ErrorMsg ''invalid syntax''))
         else case digitsValue ds 0 of
                None \<Rightarrow> (0, Some (ErrorMsg ''invalid syntax''))
              | Some n \<Rightarrow>
                 if neg then
                   (if n \<le> 2 ^ 63 then (- of_nat n, None)
                    else (2 ^ 63, Some (ErrorMsg ''value out of range'')))
                 else
                   (if n < 2 ^ 63 then (of_nat n, None)
                    else (2 ^ 63 - 1, Some (ErrorMsg ''value out of range''))))"

definition refParseFloat :: "byte list \<Rightarrow> real \<times> error option" where
  "refParseFloat b =
     (let neg = (take 1 b = [0x2D]);
          ds = (if neg then drop 1 b else b);
          ip = takeWhile (\<lambda>c. c \<noteq> 0x2E) ds;
          fp = drop 1 (dropWhile (\<lambda>c. c \<noteq> 0x2E) ds)
      in if ip = [] \<or> (0x2E \<in> set ds \<and> fp = []) then (0, Some (ErrorMsg ''invalid syntax''))
         else case (digitsValue ip 0, digitsValue fp 0) of
                (Some a, Some f) \<Rightarrow>
                  (let x = real a + real f / 10 ^ length fp
                   in (if neg then - x else x, None))
              | _ \<Rightarrow> (0, Some (ErrorMsg ''invalid syntax'')))"

text \<open>
  The reference \<open>parseString\<close> takes a quoted text with no escape and no inner quote,
  followed by nothing, and returns its content.
\<close>

definition refParseString :: "byte list \<Rightarrow> byte list \<times> byte list \<times> error option" where
  "refParseString b =
     (if 2 \<le> length b \<and> hd b = 0x22 \<and> last b = 0x22
         \<and> 0x22 \<notin> set (butlast (tl b)) \<and> 0x5C \<notin> set (butlast (tl b))
      then (butlast (tl b), b, None)
      else ([], b, Some (ErrorMsg ''illegal string'')))"

definition truncate :: "real \<Rightarrow> int" where
  "truncate x = (if 0 \<le> x then \<lfloor>x\<rfloor> else \<lceil>x\<rceil>)"

text \<open>
  The container parsers rest on the external library; the reference environment
  leaves them out, and no evaluation below reaches them.
\<close>

definition refEnv :: "real env" where
  "refEnv =
     \<lparr>parseFloat = refParseFloat,
      parseInt = refParseInt,
      parseUint = refParseUint,
      parseString = refParseString,
      newFromObject = (\<lambda>b. Inl (ErrorMsg ''object parsing is outside the reference environment'')),
      newFromArray = (\<lambda>b. Inl (ErrorMsg ''array parsing is outside the reference environment'')),
      float64_lt_zero = (\<lambda>x. x < 0),
      int64_of_float64 = (\<lambda>x. word_of_int (truncate x)),
      uint64_of_float64 = (\<lambda>x. word_of_int (truncate x)),
      float64_of_int64 = (\<lambda>i. real_of_int (sint i)),
      float64_of_uint64 = (\<lambda>u. real (unat u)),
      float32_of_float64 = (\<lambda>x. x)\<rparr>"

text \<open>ASCII lowercasing, the reference \<open>toLower\<close>.\<close>

definition asciiLower :: "byte list \<Rightarrow> byte list" where
  "asciiLower k = map (\<lambda>c. if 0x41 \<le> c \<and> c \<le> 0x5A then c + 0x20 else c) k"

text \<open>
  Two objects to run the index on: the keys \<open>Ab\<close> and \<open>aB\<close>, which share the
  lowercase form \<open>ab\<close>, inserted one after the other into a new object.
\<close>

definition oneKey :: "unit children" where
  "oneKey = setToObjectChildren asciiLower newObject (bytesOf ''Ab'') ()"

definition twoKeys :: "unit children" where
  "twoKeys = setToObjectChildren asciiLower oneKey (bytesOf ''aB'') ()"

section \<open>Termination\<close>

text \<open>
  Each pass that does not fail moves the reading cursor forward; this is what makes
  the loop of \<open>parseStrFromBytes\<close> terminate.
\<close>

lemma advances_Inl: "advances i (Inl e)"
  by (simp add: advances_def)

lemma advances_Inr: "i < i' \<Longrightarrow> advances i (Inr (b', i', s'))"
  by (simp add: advances_def)

lemma advances_bindE: "(\<And>x. advances i (f x)) \<Longrightarrow> advances i (bindE m f)"
  by (cases m) (simp_all add: advances_def)

lemma advances_if:
  "(c \<Longrightarrow> advances i x) \<Longrightarrow> (\<not> c \<Longrightarrow> advances i y) \<Longrightarrow> advances i (if c then x else y)"
  by simp

lemma advances_prod: "(\<And>x y. advances i (f x y)) \<Longrightarrow> advances i (case p of (x, y) \<Rightarrow> f x y)"
  by (cases p) simp

lemma advances_option:
  "advances i x \<Longrightarrow> (\<And>e. advances i (f e)) \<Longrightarrow> advances i (case v of None \<Rightarrow> x | Some e \<Rightarrow> f e)"
  by (cases v) simp_all

lemmas advances_intros =
  advances_Inl advances_bindE advances_if advances_prod advances_option

lemma handleEscapeUnicodeStart_advances: "advances i (handleEscapeUnicodeStart b i e s)"
  unfolding handleEscapeUnicodeStart_def Let_def
  by (intro advances_intros advances_Inr) simp_all

lemma handleEscapeStart_advances: "advances i (handleEscapeStart b i e s)"
  unfolding handleEscapeStart_def
  by (intro advances_intros advances_Inr handleEscapeUnicodeStart_advances) simp_all

lemma parseStep_advances: "advances i (parseStep b i e s)"
  unfolding parseStep_def shift_def
  by (intro advances_intros advances_Inr handleEscapeStart_advances) simp_all

termination parseLoop
proof (relation "measure (\<lambda>(b, i, e, s). e - i)")
  show "wf (measure (\<lambda>(b, i, e, s). e - i))"
    by simp
next
  fix b :: "byte list" and i e s :: nat and x b' y i' s'
  assume "i < e" and "parseStep b i e s = Inr x" and "(b', y) = x" and "(i', s') = y"
  then have "i < i'"
    using parseStep_advances [of i b e s] by (auto simp: advances_def)
  with \<open>i < e\<close> show "((b', i', e, s'), (b, i, e, s)) \<in> measure (\<lambda>(b, i, e, s). e - i)"
    by simp
qed

declare parseLoop.simps [simp del]

text \<open>
  \<open>parseNumber\<close> keeps the variant of the node, so the node that
  \<open>getNumberFromNotNumberValue\<close> returns is a Number, and the accessor called on it
  does not call itself again.
\<close>

lemma parseNumber_valueType:
  assumes "parseNumber ext v = Inr (v', err)"
  shows "valueType v' = valueType v"
proof (cases "0x2E \<in> set (valueBytes v)")
  case True
  with assms show ?thesis
    by (auto simp: parseNumber_def Let_def split: prod.splits option.splits)
next
  case False
  with assms obtain b0 where "readByte (valueBytes v) 0 = Inr b0"
    by (cases "readByte (valueBytes v) 0") (auto simp: parseNumber_def Let_def)
  with assms False show ?thesis
    by (auto simp: parseNumber_def Let_def split: prod.splits option.splits if_splits)
qed

lemma getNumberFromNotNumberValue_Number:
  assumes "getNumberFromNotNumberValue ext v = Inr n"
  shows "valueType n = Number"
proof (cases "IsString v")
  case False
  with assms show ?thesis
    by (auto simp: getNumberFromNotNumberValue_def NewInt_0_def)
next
  case True
  let ?ret = "new\<lparr>valueType := Number, valueBytes := str v\<rparr> :: 'a V"
  from assms True obtain r err where p: "parseNumber ext ?ret = Inr (r, err)"
    by (cases "parseNumber ext ?ret")
      (auto simp: getNumberFromNotNumberValue_def newFromNumber_def)
  have "valueType r = Number"
    using parseNumber_valueType [OF p] by simp
  with assms True p show ?thesis
    by (auto simp: getNumberFromNotNumberValue_def newFromNumber_def NewInt64_0_def
        split: option.splits)
qed

termination Int'
  by (relation "measure (\<lambda>(ext, v). if valueType v = Number then 0 else 1)")
    (auto dest: getNumberFromNotNumberValue_Number)

termination Uint
  by (relation "measure (\<lambda>(ext, v). if valueType v = Number then 0 else 1)")
    (auto dest: getNumberFromNotNumberValue_Number)

termination Int64
  by (relation "measure (\<lambda>(ext, v). if valueType v = Number then 0 else 1)")
    (auto dest: getNumberFromNotNumberValue_Number)

termination Uint64
  by (relation "measure (\<lambda>(ext, v). if valueType v = Number then 0 else 1)")
    (auto dest: getNumberFromNotNumberValue_Number)

termination Int32
  by (relation "measure (\<lambda>(ext, v). if valueType v = Number then 0 else 1)")
    (auto dest: getNumberFromNotNumberValue_Number)

termination Uint32
  by (relation "measure (\<lambda>(ext, v). if valueType v = Number then 0 else 1)")
    (auto dest: getNumberFromNotNumberValue_Number)

termination Float64
  by (relation "measure (\<lambda>(ext, v). if valueType v = Number then 0 else 1)")
    (auto dest: getNumberFromNotNumberValue_Number)

termination Float32
  by (relation "measure (\<lambda>(ext, v). if valueType v = Number then 0 else 1)")
    (auto dest: getNumberFromNotNumberValue_Number)

declare Int'.simps [simp del] Uint.simps [simp del] Int64.simps [simp del]
  Uint64.simps [simp del] Int32.simps [simp del] Uint32.simps [simp del]
  Float64.simps [simp del] Float32.simps [simp del]

section \<open>The escape decoder: what it accepts and what it rejects\<close>

lemmas decoder_defs =
  decoded_def parseStrFromBytes_def parseStep_def handleEscapeStart_def
  handleEscapeUnicodeStart_def assignWideRune_def hex4_def chrToHex_def shift_def memcpy_def
  runeIdentifyingBytes2_def runeIdentifyingBytes3_def runeIdentifyingBytes4_def
  readByte_def writeByte_def bytesOf_def

text \<open>
  Every byte that \<open>runeIdentifyingBytes3\<close> or \<open>runeIdentifyingBytes4\<close> accepts is
  accepted by \<open>runeIdentifyingBytes2\<close> already, and \<open>parseStep\<close> asks that one first:
  the leading byte of a 3-byte or 4-byte sequence is shifted as a 2-byte block.
\<close>

lemma runeIdentifyingBytes3_imp_2: "runeIdentifyingBytes3 chr \<Longrightarrow> runeIdentifyingBytes2 chr"
proof -
  assume "runeIdentifyingBytes3 chr"
  then have h: "chr AND 0xE0 = 0xE0"
    by (simp add: runeIdentifyingBytes3_def)
  have "chr AND 0xC0 = (chr AND 0xE0) AND 0xC0"
    by (simp add: and.assoc)
  also have "\<dots> = 0xC0"
    by (simp add: h)
  finally show ?thesis
    by (simp add: runeIdentifyingBytes2_def)
qed

lemma runeIdentifyingBytes4_imp_2: "runeIdentifyingBytes4 chr \<Longrightarrow> runeIdentifyingBytes2 chr"
proof -
  assume "runeIdentifyingBytes4 chr"
  then have h: "chr AND 0xF8 = 0xF8"
    by (simp add: runeIdentifyingBytes4_def)
  have "chr AND 0xC0 = (chr AND 0xF8) AND 0xC0"
    by (simp add: and.assoc)
  also have "\<dots> = 0xC0"
    by (simp add: h)
  finally show ?thesis
    by (simp add: runeIdentifyingBytes2_def)
qed

text \<open>
  A span of ASCII bytes with no backslash, inside the buffer, is left as it is and
  its length is returned: the part of the claim on ASCII bytes.
\<close>

lemma parseStep_ascii:
  assumes "i < length b" and "b ! i \<le> 0x7F" and "b ! i \<noteq> 0x5C"
  shows "parseStep b i e s = Inr (b, i + 1, s + 1)"
  using assms by (simp add: parseStep_def readByte_def)

lemma parseLoop_ascii:
  assumes "e \<le> length b"
    and "\<And>j. i \<le> j \<Longrightarrow> j < e \<Longrightarrow> b ! j \<le> 0x7F \<and> b ! j \<noteq> 0x5C"
  shows "parseLoop b i e s = Inr (b, s + (e - i))"
  using assms
proof (induction "e - i" arbitrary: i s)
  case 0
  then show ?case
    by (simp add: parseLoop.simps)
next
  case (Suc n)
  then have lt: "i < e" and il: "i < length b"
    by simp_all
  have st: "parseStep b i e s = Inr (b, i + 1, s + 1)"
    using Suc.prems(2) [of i] lt il by (simp add: parseStep_ascii)
  have "parseLoop b (i + 1) e (s + 1) = Inr (b, (s + 1) + (e - (i + 1)))"
    using Suc.hyps Suc.prems by (intro Suc.hyps(1)) simp_all
  with lt st show ?case
    by (simp add: parseLoop.simps [of b i e s])
qed

lemma parseStrFromBytes_ascii:
  assumes "offset + len \<le> length b"
    and "\<And>j. offset \<le> j \<Longrightarrow> j < offset + len \<Longrightarrow> b ! j \<le> 0x7F \<and> b ! j \<noteq> 0x5C"
  shows "parseStrFromBytes b offset len = Inr (b, len)"
  using parseLoop_ascii [of "offset + len" b offset offset] assms
  by (simp add: parseStrFromBytes_def)

text \<open>A 2-byte sequence is copied as a block: \<open>h\<close>, then \<open>C3 A9\<close>.\<close>

lemma parseStrFromBytes_two_byte_sequence:
  "parseStrFromBytes [0x68, 0xC3, 0xA9] 0 3 = Inr ([0x68, 0xC3, 0xA9], 3)"
  by (simp add: parseLoop.simps decoder_defs)

text \<open>
  A \<open>\u\<close> escape with fewer than six bytes before the end of the span is answered
  with an error, and so is one with a byte among its four that is neither a digit
  nor a letter.
\<close>

lemma handleEscapeUnicodeStart_truncated:
  "e - i \<le> 5 \<Longrightarrow>
   handleEscapeUnicodeStart b i e s =
     Inl (ErrorMsg ''escape symbol not followed by another character'')"
  by (simp add: handleEscapeUnicodeStart_def)

lemma chrToHex_None_iff: "snd (chrToHex chr errOut) = None \<longleftrightarrow> errOut = None \<and> hexAccepted chr"
  by (auto simp: chrToHex_def hexAccepted_def)

lemma handleEscapeUnicodeStart_rejects:
  assumes "5 < e - i" and "i + 5 < length b"
    and "\<not> hexAccepted (b ! (i + 2)) \<or> \<not> hexAccepted (b ! (i + 3)) \<or>
         \<not> hexAccepted (b ! (i + 4)) \<or> \<not> hexAccepted (b ! (i + 5))"
  shows "\<exists>err. handleEscapeUnicodeStart b i e s = Inl err"
proof -
  obtain b3 e3 where c3: "chrToHex (b ! (i + 2)) None = (b3, e3)"
    by (cases "chrToHex (b ! (i + 2)) None")
  obtain b2 e2 where c2: "chrToHex (b ! (i + 3)) e3 = (b2, e2)"
    by (cases "chrToHex (b ! (i + 3)) e3")
  obtain b1 e1 where c1: "chrToHex (b ! (i + 4)) e2 = (b1, e1)"
    by (cases "chrToHex (b ! (i + 4)) e2")
  obtain b0 e0 where c0: "chrToHex (b ! (i + 5)) e1 = (b0, e0)"
    by (cases "chrToHex (b ! (i + 5)) e1")
  have "e0 \<noteq> None"
    using assms(3) c3 c2 c1 c0
      chrToHex_None_iff [of "b ! (i + 2)" None] chrToHex_None_iff [of "b ! (i + 3)" e3]
      chrToHex_None_iff [of "b ! (i + 4)" e2] chrToHex_None_iff [of "b ! (i + 5)" e1]
    by auto
  then obtain err where "e0 = Some err"
    by auto
  with assms(1,2) c3 c2 c1 c0 show ?thesis
    by (simp add: handleEscapeUnicodeStart_def readByte_def)
qed

text \<open>
  Surrogates on concrete spans: a pair is combined into one code point of four bytes;
  a high surrogate with no escape after it, with too few bytes after it, or with a
  second unit above \<open>0xDFFF\<close> is an error.
\<close>

lemma surrogate_pair_examples:
  "decoded (0x5C # bytesOf ''uD87E'' @ 0x5C # bytesOf ''uDC04'') 0 12 =
     Inr [0xF0, 0xAF, 0xA0, 0x84]"
  "decoded (0x5C # bytesOf ''uD87E'' @ bytesOf ''abcdef'') 0 12 =
     Inl (ErrorMsg ''expect unicode escape character at position %d but not'')"
  "decoded (0x5C # bytesOf ''uD87E'') 0 6 =
     Inl (ErrorMsg ''insufficient UTF-16 data at offset %d'')"
  "decoded (0x5C # bytesOf ''uD87E'' @ 0x5C # bytesOf ''uE000'') 0 12 =
     Inl (ErrorMsg ''expect second UTF-16 encoding but got 0x04%X at position %d'')"
  by (simp_all add: parseLoop.simps decoder_defs)

text \<open>
  The leading byte of a 3-byte sequence (\<open>1110xxxx\<close>) and of a 4-byte sequence
  (\<open>11110xxx\<close>) is taken for the start of a 2-byte sequence, and a continuation
  byte (\<open>10xxxxxx\<close>) matches none of the three patterns: every well-formed 3-byte
  or 4-byte sequence is answered with an error.
\<close>

lemma leading_byte_of_three_taken_for_two:
  assumes "chr AND 0xF0 = 0xE0"
  shows "runeIdentifyingBytes2 chr"
proof -
  have "chr AND 0xC0 = (chr AND 0xF0) AND 0xC0"
    by (simp add: and.assoc)
  also have "\<dots> = 0xC0"
    by (simp add: assms)
  finally show ?thesis
    by (simp add: runeIdentifyingBytes2_def)
qed

lemma leading_byte_of_four_taken_for_two:
  assumes "chr AND 0xF8 = 0xF0"
  shows "runeIdentifyingBytes2 chr"
proof -
  have "chr AND 0xC0 = (chr AND 0xF8) AND 0xC0"
    by (simp add: and.assoc)
  also have "\<dots> = 0xC0"
    by (simp add: assms)
  finally show ?thesis
    by (simp add: runeIdentifyingBytes2_def)
qed

lemma leading_byte_not_ascii:
  assumes "(chr :: byte) AND 0xC0 = 0xC0"
  shows "\<not> chr \<le> 0x7F"
proof -
  have "chr AND 0xC0 \<le> chr"
    by (rule word_and_le2)
  with assms have "0xC0 \<le> chr"
    by simp
  then show ?thesis
    by (simp add: word_le_nat_alt)
qed

lemma continuation_matches_nothing:
  assumes c: "(chr :: byte) AND 0xC0 = 0x80"
  shows "\<not> chr \<le> 0x7F" "\<not> runeIdentifyingBytes2 chr" "\<not> runeIdentifyingBytes3 chr"
    "\<not> runeIdentifyingBytes4 chr"
proof -
  have "chr AND 0xC0 \<le> chr"
    by (rule word_and_le2)
  with c have "0x80 \<le> chr"
    by simp
  then show "\<not> chr \<le> 0x7F"
    by (simp add: word_le_nat_alt)
  show n2: "\<not> runeIdentifyingBytes2 chr"
    using c by (simp add: runeIdentifyingBytes2_def)
  show "\<not> runeIdentifyingBytes3 chr"
    using n2 runeIdentifyingBytes3_imp_2 by blast
  show "\<not> runeIdentifyingBytes4 chr"
    using n2 runeIdentifyingBytes4_imp_2 by blast
qed

lemma three_byte_sequence_fails:
  assumes "c0 AND 0xF0 = 0xE0" and "c1 AND 0xC0 = 0x80" and "c2 AND 0xC0 = 0x80"
  shows "parseStrFromBytes [c0, c1, c2] 0 3 = Inl (ErrorMsg ''illegal UTF8 string'')"
proof -
  have r2: "runeIdentifyingBytes2 c0"
    using assms(1) by (rule leading_byte_of_three_taken_for_two)
  then have a0: "\<not> c0 \<le> 0x7F"
    using leading_byte_not_ascii by (simp add: runeIdentifyingBytes2_def)
  have s1: "parseStep [c0, c1, c2] 0 3 0 = Inr ([c0, c1, c2], 2, 2)"
    using r2 a0 by (simp add: parseStep_def readByte_def shift_def memcpy_def)
  have s2: "parseStep [c0, c1, c2] 2 3 2 = Inl (ErrorMsg ''illegal UTF8 string'')"
    using continuation_matches_nothing [OF assms(3)] by (simp add: parseStep_def readByte_def)
  show ?thesis
    using s1 s2
    by (simp add: parseStrFromBytes_def parseLoop.simps [of _ 0] parseLoop.simps [of _ 2])
qed

lemma four_byte_sequence_fails:
  assumes "c0 AND 0xF8 = 0xF0" and "c1 AND 0xC0 = 0x80" and "c2 AND 0xC0 = 0x80"
    and "c3 AND 0xC0 = 0x80"
  shows "parseStrFromBytes [c0, c1, c2, c3] 0 4 = Inl (ErrorMsg ''illegal UTF8 string'')"
proof -
  have r2: "runeIdentifyingBytes2 c0"
    using assms(1) by (rule leading_byte_of_four_taken_for_two)
  then have a0: "\<not> c0 \<le> 0x7F"
    using leading_byte_not_ascii by (simp add: runeIdentifyingBytes2_def)
  have s1: "parseStep [c0, c1, c2, c3] 0 4 0 = Inr ([c0, c1, c2, c3], 2, 2)"
    using r2 a0 by (simp add: parseStep_def readByte_def shift_def memcpy_def)
  have s2: "parseStep [c0, c1, c2, c3] 2 4 2 = Inl (ErrorMsg ''illegal UTF8 string'')"
    using continuation_matches_nothing [OF assms(3)] by (simp add: parseStep_def readByte_def)
  show ?thesis
    using s1 s2
    by (simp add: parseStrFromBytes_def parseLoop.simps [of _ 0] parseLoop.simps [of _ 2])
qed

text \<open>
  C1. The claim has the decoder copy every well-formed 2-, 3- and 4-byte UTF-8
  sequence as one block and succeed. On the three bytes \<open>E4 B8 96\<close> (one 3-byte
  sequence, no escape) \<open>parseStrFromBytes\<close> fails with "illegal UTF8 string", and so
  it does on the 4-byte sequence \<open>F0 9F 91 A8\<close>: the leading byte is taken for the
  start of a 2-byte sequence, and the continuation byte that follows the two bytes
  shifted matches no pattern.
\<close>

theorem parseStrFromBytes_wide_sequence_fails:
  "parseStrFromBytes [0xE4, 0xB8, 0x96] 0 3 = Inl (ErrorMsg ''illegal UTF8 string'') \<and>
   parseStrFromBytes [0xF0, 0x9F, 0x91, 0xA8] 0 4 = Inl (ErrorMsg ''illegal UTF8 string'')"
  by (simp add: parseLoop.simps decoder_defs)

text \<open>
  C2. The claim has the decode fail when the escape after a high surrogate has a
  unit outside \<open>0xDC00-0xDFFF\<close>. On the span \<open>\uD800\u0041\<close> the decode succeeds:
  \<open>ex = 0x0041 - 0xDC00\<close> is negative, the signed test \<open>ex > 0x03FF\<close> lets it pass, and
  the twelve bytes decode to the three bytes \<open>E2 91 81\<close> (the code point \<open>0x2441\<close>).
\<close>

theorem handleEscapeUnicodeStart_second_unit_below_range:
  "decoded (0x5C # bytesOf ''uD800'' @ 0x5C # bytesOf ''u0041'') 0 12 = Inr [0xE2, 0x91, 0x81]"
  by (simp add: parseLoop.simps decoder_defs)

text \<open>
  C5. The claim has the decode fail when a character after \<open>\u\<close> is not a
  hexadecimal digit. \<open>chrToHex\<close> takes every letter up to \<open>z\<close> and \<open>Z\<close>: \<open>g\<close> counts
  16, and the span \<open>\u00g0\<close> decodes without an error to the two bytes \<open>C4 80\<close> (the code
  point \<open>0x100\<close>).
\<close>

theorem chrToHex_letter_beyond_f:
  "chrToHex 0x67 None = (16, None) \<and>
   decoded (0x5C # bytesOf ''u00g0'') 0 6 = Inr [0xC4, 0x80]"
  by (simp add: parseLoop.simps decoder_defs)

text \<open>
  C6. The claim has a backslash that ends the span answered with an error, and no
  read past the end of the buffer. The guard \<open>end - i < 1\<close> of \<open>handleEscapeStart\<close>
  never holds inside the loop, and \<open>it.b[i + 1]\<close> is read: on the one-byte buffer
  that holds a backslash the read is out of range (a panic); when the buffer goes
  on after the span (here \<open>"a\"\<close>, the span being \<open>a\\<close>), the byte after the span is
  taken for the escaped character and the decode succeeds with \<open>a"\<close>.
\<close>

theorem handleEscapeStart_backslash_at_end:
  "parseStrFromBytes [0x5C] 0 1 = Inl IndexOutOfRange \<and>
   decoded [0x22, 0x61, 0x5C, 0x22] 1 2 = Inr [0x61, 0x22]"
  by (simp add: parseLoop.simps decoder_defs)

section \<open>Unmarshal\<close>

lemmas unmarshal_defs =
  Unmarshal_def isWhitespace_def isNumberStart_def newFromTrue_def newFromFalse_def
  newFromNull_def newFromNumber_def bytesOf_def

lemma UnmarshalRange_leading_whitespace:
  "list_all isWhitespace ws \<Longrightarrow> UnmarshalRange ext (ws @ b) = UnmarshalRange ext b"
  by (induction ws) simp_all

text \<open>
  C4. The claim has whitespace after the value tolerated as whitespace before it
  is. \<open>Unmarshal\<close> skips the whitespace in front and hands the whole rest \<open>b[i:]\<close> to
  \<open>newFromTrue\<close>, \<open>newFromFalse\<close> and \<open>newFromNull\<close>, which accept the bare word only:
  the texts \<open>"  true  "\<close> and \<open>" null "\<close> fail with \<open>ErrNotValidBoolValue\<close>, whatever the
  parameters are.
\<close>

theorem Unmarshal_trailing_whitespace_fails:
  "Unmarshal ext (bytesOf ''  true  '') = Inl ErrNotValidBoolValue \<and>
   Unmarshal ext (bytesOf '' null '') = Inl ErrNotValidBoolValue"
  by (simp add: unmarshal_defs)

text \<open>
  C8. The claim has the nil and the empty input fail with the "raw bytes
  unrecognized" error. They fail with \<open>ErrNilParameter\<close>, by the first test of
  \<open>Unmarshal\<close>.
\<close>

theorem Unmarshal_empty_not_unrecognized:
  "Unmarshal refEnv [] \<noteq> Inl ErrRawBytesUnrecignized"
  by (simp add: Unmarshal_def)

text \<open>
  C8, as the code has it: the nil or empty input fails with \<open>ErrNilParameter\<close>; an
  input of one or more whitespace bytes and nothing else, and an input whose first
  byte after the whitespace is none of \<open>{\<close>, \<open>[\<close>, a decimal digit, \<open>-\<close>, \<open>"\<close>, \<open>t\<close>, \<open>f\<close>,
  \<open>n\<close>, fail with \<open>ErrRawBytesUnrecignized\<close>. \<open>Inl\<close> carries the error and no value.
\<close>

theorem Unmarshal_unrecognized:
  "Unmarshal ext [] = Inl ErrNilParameter \<and>
   (ws \<noteq> [] \<and> list_all isWhitespace ws \<longrightarrow>
      Unmarshal ext ws = Inl ErrRawBytesUnrecignized) \<and>
   (list_all isWhitespace ws \<and> \<not> isWhitespace c \<and> \<not> isNumberStart c \<and>
    c \<notin> {0x7B, 0x5B, 0x22, 0x74, 0x66, 0x6E} \<longrightarrow>
      Unmarshal ext (ws @ c # rest) = Inl ErrRawBytesUnrecignized)"
proof (intro conjI impI)
  show "Unmarshal ext [] = Inl ErrNilParameter"
    by (simp add: Unmarshal_def)
next
  assume "ws \<noteq> [] \<and> list_all isWhitespace ws"
  then show "Unmarshal ext ws = Inl ErrRawBytesUnrecignized"
    using UnmarshalRange_leading_whitespace [of ws ext "[]"] by (simp add: Unmarshal_def)
next
  assume h: "list_all isWhitespace ws \<and> \<not> isWhitespace c \<and> \<not> isNumberStart c \<and>
    c \<notin> {0x7B, 0x5B, 0x22, 0x74, 0x66, 0x6E}"
  then have "UnmarshalRange ext (c # rest) = Inl ErrRawBytesUnrecignized"
    by simp
  with h show "Unmarshal ext (ws @ c # rest) = Inl ErrRawBytesUnrecignized"
    using UnmarshalRange_leading_whitespace [of ws ext "c # rest"] by (simp add: Unmarshal_def)
qed

theorem Unmarshal_unrecognized_witness:
  "Unmarshal refEnv [] = Inl ErrNilParameter \<and>
   bytesOf ''  '' \<noteq> [] \<and> list_all isWhitespace (bytesOf ''  '') \<and>
   Unmarshal refEnv (bytesOf ''  '') = Inl ErrRawBytesUnrecignized \<and>
   \<not> isWhitespace 0x78 \<and> \<not> isNumberStart 0x78 \<and>
   (0x78 :: byte) \<notin> {0x7B, 0x5B, 0x22, 0x74, 0x66, 0x6E} \<and>
   Unmarshal refEnv (bytesOf ''  '' @ 0x78 # bytesOf ''yz'') = Inl ErrRawBytesUnrecignized"
  using Unmarshal_unrecognized [of refEnv "bytesOf ''  ''" "0x78" "bytesOf ''yz''"]
  by (simp add: bytesOf_def isWhitespace_def isNumberStart_def)

section \<open>Numbers\<close>

lemmas number_defs =
  parseNumber_def lazyParse_def readByte_def new_def IsNumber_def IsString_def
  IsInteger_def IsPositive_def GreaterThanInt64Max_def

text \<open>
  \<open>GreaterThanInt64Max\<close> case by case. On a node that is no number it is false and
  the node is untouched. On a parsed number it reads the cached flag and value. On
  an unparsed number it parses the text first: a text with a leading \<open>-\<close> and no
  decimal point is negative, whatever \<open>parseInt\<close> makes of it; a text with neither is
  compared through the value \<open>parseUint\<close> returns; a text with a decimal point is
  judged by the sign of its float and by \<open>uint64\<close> of it, and when \<open>parseFloat\<close> fails
  the flag and the value of the node stay what they were.
\<close>

lemma GreaterThanInt64Max_not_number: "\<not> IsNumber v \<Longrightarrow> GreaterThanInt64Max ext v = Inr (False, v)"
  by (simp add: GreaterThanInt64Max_def IsNumber_def)

lemma GreaterThanInt64Max_parsed:
  "IsNumber v \<Longrightarrow> parsed v \<Longrightarrow>
   GreaterThanInt64Max ext v = Inr (\<not> negative v \<and> 0x7fffffffffffffff < u64 v, v)"
  by (simp add: GreaterThanInt64Max_def IsNumber_def lazyParse_def)

lemma GreaterThanInt64Max_leading_minus:
  assumes "IsNumber v" "\<not> parsed v" "0x2E \<notin> set (valueBytes v)" "take 1 (valueBytes v) = [0x2D]"
  shows "\<exists>v'. GreaterThanInt64Max ext v = Inr (False, v')"
proof -
  from assms(4) obtain rest where b: "valueBytes v = 0x2D # rest"
    by (cases "valueBytes v") auto
  obtain i err where p: "parseInt ext (valueBytes v) = (i, err)"
    by (cases "parseInt ext (valueBytes v)")
  from assms(1-3) b p show ?thesis
    by (cases err)
      (auto simp: GreaterThanInt64Max_def IsNumber_def lazyParse_def parseNumber_def readByte_def)
qed

lemma GreaterThanInt64Max_unsigned_text:
  assumes "IsNumber v" "\<not> parsed v" "0x2E \<notin> set (valueBytes v)" "valueBytes v \<noteq> []"
    "take 1 (valueBytes v) \<noteq> [0x2D]"
  shows "\<exists>v'. GreaterThanInt64Max ext v =
     Inr (0x7fffffffffffffff < fst (parseUint ext (valueBytes v)), v')"
proof -
  from assms(4,5) obtain c rest where b: "valueBytes v = c # rest" "c \<noteq> 0x2D"
    by (cases "valueBytes v") auto
  obtain u err where p: "parseUint ext (valueBytes v) = (u, err)"
    by (cases "parseUint ext (valueBytes v)")
  from assms(1-3) b p show ?thesis
    by (cases err)
      (auto simp: GreaterThanInt64Max_def IsNumber_def lazyParse_def parseNumber_def readByte_def)
qed

lemma GreaterThanInt64Max_float_text:
  assumes "IsNumber v" "\<not> parsed v" "0x2E \<in> set (valueBytes v)"
    "parseFloat ext (valueBytes v) = (x, None)"
  shows "\<exists>v'. GreaterThanInt64Max ext v =
     Inr (\<not> float64_lt_zero ext x \<and> 0x7fffffffffffffff < uint64_of_float64 ext x, v')"
  using assms
  by (auto simp: GreaterThanInt64Max_def IsNumber_def lazyParse_def parseNumber_def)

lemma GreaterThanInt64Max_float_text_error:
  assumes "IsNumber v" "\<not> parsed v" "0x2E \<in> set (valueBytes v)"
    "parseFloat ext (valueBytes v) = (x, Some e)"
  shows "\<exists>v'. GreaterThanInt64Max ext v =
     Inr (\<not> negative v \<and> 0x7fffffffffffffff < u64 v, v')"
  using assms
  by (auto simp: GreaterThanInt64Max_def IsNumber_def lazyParse_def parseNumber_def)

lemma GreaterThanInt64Max_above_int64:
  assumes "parseUint ext (bytesOf ''9223372036854775808'') = (0x8000000000000000, None)"
  shows "\<exists>n n'. newFromNumber (bytesOf ''9223372036854775808'') = Inr n \<and> \<not> parsed n \<and>
           GreaterThanInt64Max ext n = Inr (True, n') \<and> parsed n' \<and>
           IsInteger ext n = Inr (True, n') \<and> IsPositive ext n = Inr (True, n')"
  using assms by (simp add: unmarshal_defs number_defs)

lemma GreaterThanInt64Max_at_int64_max:
  assumes "parseUint ext (bytesOf ''9223372036854775807'') = (0x7FFFFFFFFFFFFFFF, None)"
  shows "\<exists>n n'. newFromNumber (bytesOf ''9223372036854775807'') = Inr n \<and> \<not> parsed n \<and>
           GreaterThanInt64Max ext n = Inr (False, n')"
  using assms by (simp add: unmarshal_defs number_defs)

text \<open>
  C3. \<open>GreaterThanInt64Max\<close> returns true exactly when the node is a number and,
  after the lazy parse, is not negative and has an unsigned value above
  \<open>0x7FFFFFFFFFFFFFFF\<close>. It is false on every node that is no number; on a
  parsed number it is the cached flag and value; on an unparsed number it parses the
  text: false on a leading \<open>-\<close>, the comparison of what \<open>parseUint\<close> returns on an
  unsigned text, the sign and the \<open>uint64\<close> of the float on a text with a decimal
  point. The unparsed node of text \<open>9223372036854775808\<close> answers true and is parsed
  by the call, and \<open>IsInteger\<close> and \<open>IsPositive\<close> are true on it; the one of text
  \<open>9223372036854775807\<close> answers false. And where \<open>parseUint\<close> reads the text
  \<open>18446744073709551615\<close> as that number, \<open>Unmarshal\<close> of the text is a number node on
  which \<open>IsInteger\<close>, \<open>IsPositive\<close> and \<open>GreaterThanInt64Max\<close> are all true.
\<close>

theorem GreaterThanInt64Max_iff:
  "(GreaterThanInt64Max ext v = Inr (True, v') \<longleftrightarrow>
      IsNumber v \<and> lazyParse ext v = Inr v' \<and> \<not> negative v' \<and>
      0x7fffffffffffffff < u64 v') \<and>
   (\<not> IsNumber v \<longrightarrow> GreaterThanInt64Max ext v = Inr (False, v)) \<and>
   (IsNumber v \<and> parsed v \<longrightarrow>
      GreaterThanInt64Max ext v = Inr (\<not> negative v \<and> 0x7fffffffffffffff < u64 v, v)) \<and>
   (IsNumber v \<and> \<not> parsed v \<and> 0x2E \<notin> set (valueBytes v) \<and>
    take 1 (valueBytes v) = [0x2D] \<longrightarrow>
      (\<exists>w. GreaterThanInt64Max ext v = Inr (False, w))) \<and>
   (IsNumber v \<and> \<not> parsed v \<and> 0x2E \<notin> set (valueBytes v) \<and> valueBytes v \<noteq> [] \<and>
    take 1 (valueBytes v) \<noteq> [0x2D] \<longrightarrow>
      (\<exists>w. GreaterThanInt64Max ext v =
         Inr (0x7fffffffffffffff < fst (parseUint ext (valueBytes v)), w))) \<and>
   (IsNumber v \<and> \<not> parsed v \<and> 0x2E \<in> set (valueBytes v) \<and>
    parseFloat ext (valueBytes v) = (x, None) \<longrightarrow>
      (\<exists>w. GreaterThanInt64Max ext v =
         Inr (\<not> float64_lt_zero ext x \<and> 0x7fffffffffffffff < uint64_of_float64 ext x, w))) \<and>
   (IsNumber v \<and> \<not> parsed v \<and> 0x2E \<in> set (valueBytes v) \<and>
    parseFloat ext (valueBytes v) = (x, Some e) \<longrightarrow>
      (\<exists>w. GreaterThanInt64Max ext v =
         Inr (\<not> negative v \<and> 0x7fffffffffffffff < u64 v, w))) \<and>
   (parseUint ext (bytesOf ''9223372036854775808'') = (0x8000000000000000, None) \<longrightarrow>
      (\<exists>n n'. newFromNumber (bytesOf ''9223372036854775808'') = Inr n \<and> \<not> parsed n \<and>
           GreaterThanInt64Max ext n = Inr (True, n') \<and> parsed n' \<and>
           IsInteger ext n = Inr (True, n') \<and> IsPositive ext n = Inr (True, n'))) \<and>
   (parseUint ext (bytesOf ''9223372036854775807'') = (0x7FFFFFFFFFFFFFFF, None) \<longrightarrow>
      (\<exists>n n'. newFromNumber (bytesOf ''9223372036854775807'') = Inr n \<and> \<not> parsed n \<and>
           GreaterThanInt64Max ext n = Inr (False, n'))) \<and>
   (parseUint ext (bytesOf ''18446744073709551615'') = (0xFFFFFFFFFFFFFFFF, None) \<longrightarrow>
      (\<exists>n. Unmarshal ext (bytesOf ''18446744073709551615'') = Inr n \<and> IsNumber n \<and>
           IsInteger ext n = Inr (True, n) \<and> IsPositive ext n = Inr (True, n) \<and>
           GreaterThanInt64Max ext n = Inr (True, n)))"
proof (intro conjI impI)
  show "GreaterThanInt64Max ext v = Inr (True, v') \<longleftrightarrow>
      IsNumber v \<and> lazyParse ext v = Inr v' \<and> \<not> negative v' \<and> 0x7fffffffffffffff < u64 v'"
    by (cases "lazyParse ext v") (auto simp: GreaterThanInt64Max_def IsNumber_def)
next
  assume "\<not> IsNumber v"
  then show "GreaterThanInt64Max ext v = Inr (False, v)"
    by (rule GreaterThanInt64Max_not_number)
next
  assume "IsNumber v \<and> parsed v"
  then show "GreaterThanInt64Max ext v = Inr (\<not> negative v \<and> 0x7fffffffffffffff < u64 v, v)"
    by (simp add: GreaterThanInt64Max_parsed)
next
  assume "IsNumber v \<and> \<not> parsed v \<and> 0x2E \<notin> set (valueBytes v) \<and>
    take 1 (valueBytes v) = [0x2D]"
  then show "\<exists>w. GreaterThanInt64Max ext v = Inr (False, w)"
    using GreaterThanInt64Max_leading_minus [of v ext] by blast
next
  assume "IsNumber v \<and> \<not> parsed v \<and> 0x2E \<notin> set (valueBytes v) \<and> valueBytes v \<noteq> [] \<and>
    take 1 (valueBytes v) \<noteq> [0x2D]"
  then show "\<exists>w. GreaterThanInt64Max ext v =
         Inr (0x7fffffffffffffff < fst (parseUint ext (valueBytes v)), w)"
    using GreaterThanInt64Max_unsigned_text [of v ext] by blast
next
  assume "IsNumber v \<and> \<not> parsed v \<and> 0x2E \<in> set (valueBytes v) \<and>
    parseFloat ext (valueBytes v) = (x, None)"
  then show "\<exists>w. GreaterThanInt64Max ext v =
         Inr (\<not> float64_lt_zero ext x \<and> 0x7fffffffffffffff < uint64_of_float64 ext x, w)"
    using GreaterThanInt64Max_float_text [of v ext x] by blast
next
  assume "IsNumber v \<and> \<not> parsed v \<and> 0x2E \<in> set (valueBytes v) \<and>
    parseFloat ext (valueBytes v) = (x, Some e)"
  then show "\<exists>w. GreaterThanInt64Max ext v =
         Inr (\<not> negative v \<and> 0x7fffffffffffffff < u64 v, w)"
    using GreaterThanInt64Max_float_text_error [of v ext x e] by blast
next
  assume "parseUint ext (bytesOf ''9223372036854775808'') = (0x8000000000000000, None)"
  then show "\<exists>n n'. newFromNumber (bytesOf ''9223372036854775808'') = Inr n \<and> \<not> parsed n \<and>
           GreaterThanInt64Max ext n = Inr (True, n') \<and> parsed n' \<and>
           IsInteger ext n = Inr (True, n') \<and> IsPositive ext n = Inr (True, n')"
    by (rule GreaterThanInt64Max_above_int64)
next
  assume "parseUint ext (bytesOf ''9223372036854775807'') = (0x7FFFFFFFFFFFFFFF, None)"
  then show "\<exists>n n'. newFromNumber (bytesOf ''9223372036854775807'') = Inr n \<and> \<not> parsed n \<and>
           GreaterThanInt64Max ext n = Inr (False, n')"
    by (rule GreaterThanInt64Max_at_int64_max)
next
  assume "parseUint ext (bytesOf ''18446744073709551615'') = (0xFFFFFFFFFFFFFFFF, None)"
  then show "\<exists>n. Unmarshal ext (bytesOf ''18446744073709551615'') = Inr n \<and> IsNumber n \<and>
           IsInteger ext n = Inr (True, n) \<and> IsPositive ext n = Inr (True, n) \<and>
           GreaterThanInt64Max ext n = Inr (True, n)"
    by (simp add: unmarshal_defs number_defs)
qed

theorem GreaterThanInt64Max_iff_witness:
  "(\<not> IsNumber (new :: real V) \<and> GreaterThanInt64Max refEnv new = Inr (False, new)) \<and>
   (IsNumber (NewInt_0 :: real V) \<and> parsed (NewInt_0 :: real V) \<and>
    GreaterThanInt64Max refEnv NewInt_0 = Inr (False, NewInt_0)) \<and>
   (\<exists>w. GreaterThanInt64Max refEnv (new\<lparr>valueType := Number, valueBytes := bytesOf ''-5''\<rparr>)
          = Inr (False, w)) \<and>
   (parseUint refEnv (bytesOf ''9223372036854775808'') = (0x8000000000000000, None) \<and>
    (\<exists>w. GreaterThanInt64Max refEnv
            (new\<lparr>valueType := Number, valueBytes := bytesOf ''9223372036854775808''\<rparr>)
          = Inr (True, w))) \<and>
   (parseFloat refEnv (bytesOf ''3.9'') = (39 / 10, None) \<and>
    (\<exists>w. GreaterThanInt64Max refEnv (new\<lparr>valueType := Number, valueBytes := bytesOf ''3.9''\<rparr>)
          = Inr (False, w))) \<and>
   (parseFloat refEnv (bytesOf ''1.x'') = (0, Some (ErrorMsg ''invalid syntax'')) \<and>
    (\<exists>w. GreaterThanInt64Max refEnv (new\<lparr>valueType := Number, valueBytes := bytesOf ''1.x''\<rparr>)
          = Inr (False, w))) \<and>
   (\<exists>n n'. newFromNumber (bytesOf ''9223372036854775808'') = Inr n \<and> \<not> parsed n \<and>
        GreaterThanInt64Max refEnv n = Inr (True, n') \<and> parsed n' \<and>
        IsInteger refEnv n = Inr (True, n') \<and> IsPositive refEnv n = Inr (True, n')) \<and>
   (parseUint refEnv (bytesOf ''9223372036854775807'') = (0x7FFFFFFFFFFFFFFF, None) \<and>
    (\<exists>n n'. newFromNumber (bytesOf ''9223372036854775807'') = Inr n \<and> \<not> parsed n \<and>
        GreaterThanInt64Max refEnv n = Inr (False, n'))) \<and>
   (parseUint refEnv (bytesOf ''18446744073709551615'') = (0xFFFFFFFFFFFFFFFF, None) \<and>
    (\<exists>n. Unmarshal refEnv (bytesOf ''18446744073709551615'') = Inr n \<and> IsNumber n \<and>
        IsInteger refEnv n = Inr (True, n) \<and> IsPositive refEnv n = Inr (True, n) \<and>
        GreaterThanInt64Max refEnv n = Inr (True, n)))"
proof -
  let ?num = "\<lambda>s. new\<lparr>valueType := Number, valueBytes := bytesOf s\<rparr> :: real V"
  let ?e = "ErrorMsg ''invalid syntax''"
  have u1: "parseUint refEnv (bytesOf ''9223372036854775808'') = (0x8000000000000000, None)"
    and u2: "parseUint refEnv (bytesOf ''9223372036854775807'') = (0x7FFFFFFFFFFFFFFF, None)"
    and u3: "parseUint refEnv (bytesOf ''18446744073709551615'') = (0xFFFFFFFFFFFFFFFF, None)"
    by (simp_all add: refEnv_def refParseUint_def bytesOf_def)
  have f1: "parseFloat refEnv (bytesOf ''3.9'') = (39 / 10, None)"
    and f2: "parseFloat refEnv (bytesOf ''1.x'') = (0, Some ?e)"
    by (simp_all add: refEnv_def refParseFloat_def bytesOf_def)
  have c: "\<not> float64_lt_zero refEnv (39 / 10)" "uint64_of_float64 refEnv (39 / 10) = 3"
    by (simp_all add: refEnv_def truncate_def)
  have vb: "valueBytes (?num s) = bytesOf s" for s
    by simp
  have a1: "\<not> IsNumber (new :: real V)"
    by (simp add: IsNumber_def new_def)
  have a2: "GreaterThanInt64Max refEnv (new :: real V) = Inr (False, new)"
    using a1 by (rule GreaterThanInt64Max_iff [of refEnv "new :: real V" new "0" "?e", THEN conjunct2, THEN conjunct1, THEN mp])
  have p1: "IsNumber (NewInt_0 :: real V)" and p2: "parsed (NewInt_0 :: real V)"
    by (simp_all add: IsNumber_def NewInt_0_def new_def)
  have "GreaterThanInt64Max refEnv (NewInt_0 :: real V) =
      Inr (\<not> negative (NewInt_0 :: real V) \<and> 0x7fffffffffffffff < u64 (NewInt_0 :: real V), NewInt_0)"
    using p1 p2 by (intro GreaterThanInt64Max_iff [of refEnv "NewInt_0 :: real V" new "0" "?e", THEN conjunct2, THEN conjunct2, THEN conjunct1, THEN mp] conjI)
  then have p3: "GreaterThanInt64Max refEnv (NewInt_0 :: real V) = Inr (False, NewInt_0)"
    by (simp add: NewInt_0_def new_def)
  have "IsNumber (?num ''-5'') \<and> \<not> parsed (?num ''-5'') \<and> 0x2E \<notin> set (valueBytes (?num ''-5'')) \<and>
      take 1 (valueBytes (?num ''-5'')) = [0x2D]"
    by (simp add: IsNumber_def new_def bytesOf_def)
  then have b: "\<exists>w. GreaterThanInt64Max refEnv (?num ''-5'') = Inr (False, w)"
    by (rule GreaterThanInt64Max_iff [of refEnv "?num ''-5''" new "0" "?e", THEN conjunct2, THEN conjunct2, THEN conjunct2, THEN conjunct1, THEN mp])
  have "IsNumber (?num ''9223372036854775808'') \<and> \<not> parsed (?num ''9223372036854775808'') \<and>
      0x2E \<notin> set (valueBytes (?num ''9223372036854775808'')) \<and>
      valueBytes (?num ''9223372036854775808'') \<noteq> [] \<and>
      take 1 (valueBytes (?num ''9223372036854775808'')) \<noteq> [0x2D]"
    by (simp add: IsNumber_def new_def bytesOf_def)
  then have "\<exists>w. GreaterThanInt64Max refEnv (?num ''9223372036854775808'') =
      Inr (0x7fffffffffffffff
            < fst (parseUint refEnv (valueBytes (?num ''9223372036854775808''))), w)"
    by (rule GreaterThanInt64Max_iff [of refEnv "?num ''9223372036854775808''" new "0" "?e", THEN conjunct2, THEN conjunct2, THEN conjunct2, THEN conjunct2, THEN conjunct1, THEN mp])
  then have d: "\<exists>w. GreaterThanInt64Max refEnv (?num ''9223372036854775808'') = Inr (True, w)"
    by (simp only: vb u1 fst_conv) simp
  have "IsNumber (?num ''3.9'') \<and> \<not> parsed (?num ''3.9'') \<and> 0x2E \<in> set (valueBytes (?num ''3.9'')) \<and>
      parseFloat refEnv (valueBytes (?num ''3.9'')) = (39 / 10, None)"
    using f1 by (simp add: IsNumber_def new_def bytesOf_def)
  then have "\<exists>w. GreaterThanInt64Max refEnv (?num ''3.9'') =
      Inr (\<not> float64_lt_zero refEnv (39 / 10)
           \<and> 0x7fffffffffffffff < uint64_of_float64 refEnv (39 / 10), w)"
    by (rule GreaterThanInt64Max_iff [of refEnv "?num ''3.9''" new "39 / 10" "?e", THEN conjunct2, THEN conjunct2, THEN conjunct2, THEN conjunct2, THEN conjunct2, THEN conjunct1, THEN mp])
  then have g: "\<exists>w. GreaterThanInt64Max refEnv (?num ''3.9'') = Inr (False, w)"
    by (simp only: c) simp
  have "IsNumber (?num ''1.x'') \<and> \<not> parsed (?num ''1.x'') \<and> 0x2E \<in> set (valueBytes (?num ''1.x'')) \<and>
      parseFloat refEnv (valueBytes (?num ''1.x'')) = (0, Some ?e)"
    using f2 by (simp add: IsNumber_def new_def bytesOf_def)
  then have "\<exists>w. GreaterThanInt64Max refEnv (?num ''1.x'') =
      Inr (\<not> negative (?num ''1.x'') \<and> 0x7fffffffffffffff < u64 (?num ''1.x''), w)"
    by (rule GreaterThanInt64Max_iff [of refEnv "?num ''1.x''" new "0" "?e", THEN conjunct2, THEN conjunct2, THEN conjunct2, THEN conjunct2, THEN conjunct2, THEN conjunct2, THEN conjunct1, THEN mp])
  then have h: "\<exists>w. GreaterThanInt64Max refEnv (?num ''1.x'') = Inr (False, w)"
    by (simp add: new_def)
  have i: "\<exists>n n'. newFromNumber (bytesOf ''9223372036854775808'') = Inr n \<and> \<not> parsed n \<and>
        GreaterThanInt64Max refEnv n = Inr (True, n') \<and> parsed n' \<and>
        IsInteger refEnv n = Inr (True, n') \<and> IsPositive refEnv n = Inr (True, n')"
    using u1 by (rule GreaterThanInt64Max_iff [of refEnv "new :: real V" new "0" "?e", THEN conjunct2, THEN conjunct2, THEN conjunct2, THEN conjunct2, THEN conjunct2, THEN conjunct2, THEN conjunct2, THEN conjunct1, THEN mp])
  have j: "\<exists>n n'. newFromNumber (bytesOf ''9223372036854775807'') = Inr n \<and> \<not> parsed n \<and>
        GreaterThanInt64Max refEnv n = Inr (False, n')"
    using u2 by (rule GreaterThanInt64Max_iff [of refEnv "new :: real V" new "0" "?e", THEN conjunct2, THEN conjunct2, THEN conjunct2, THEN conjunct2, THEN conjunct2, THEN conjunct2, THEN conjunct2, THEN conjunct2, THEN conjunct1, THEN mp])
  have k: "\<exists>n. Unmarshal refEnv (bytesOf ''18446744073709551615'') = Inr n \<and> IsNumber n \<and>
        IsInteger refEnv n = Inr (True, n) \<and> IsPositive refEnv n = Inr (True, n) \<and>
        GreaterThanInt64Max refEnv n = Inr (True, n)"
    using u3 by (rule GreaterThanInt64Max_iff [of refEnv "new :: real V" new "0" "?e", THEN conjunct2, THEN conjunct2, THEN conjunct2, THEN conjunct2, THEN conjunct2, THEN conjunct2, THEN conjunct2, THEN conjunct2, THEN conjunct2, THEN mp])
  from a1 a2 p1 p2 p3 b u1 d f1 g f2 h i u2 j u3 k show ?thesis
    by (intro conjI)
qed

text \<open>
  C10. After a successful \<open>parseNumber\<close> the node is parsed and its cached values
  are linked: with a decimal point in the text, \<open>i64 = int64(f64)\<close> and
  \<open>u64 = uint64(f64)\<close>; with a leading \<open>-\<close> and no decimal point, \<open>u64 = uint64(i64)\<close>
  and \<open>f64 = float64(i64)\<close>; otherwise \<open>i64 = int64(u64)\<close> and \<open>f64 = float64(u64)\<close>.
  So \<open>Int64\<close> on the text \<open>3.9\<close> is \<open>int64\<close> of the float that \<open>parseFloat\<close> reads, and
  \<open>Uint64\<close> on the text \<open>-1\<close>, which \<open>parseInt\<close> reads as \<open>-1\<close>, is
  \<open>18446744073709551615\<close>.
\<close>

theorem parseNumber_cached_values:
  "(parseNumber ext v = Inr (v', None) \<longrightarrow>
      parsed v' \<and>
      (if 0x2E \<in> set (valueBytes v) then
         i64 v' = int64_of_float64 ext (f64 v') \<and> u64 v' = uint64_of_float64 ext (f64 v')
       else if take 1 (valueBytes v) = [0x2D] then
         u64 v' = ucast (i64 v') \<and> f64 v' = float64_of_int64 ext (i64 v')
       else i64 v' = ucast (u64 v') \<and> f64 v' = float64_of_uint64 ext (u64 v'))) \<and>
   (parseFloat ext (bytesOf ''3.9'') = (x, None) \<longrightarrow>
      (\<exists>n n'. newFromNumber (bytesOf ''3.9'') = Inr n \<and>
          Int64 ext n = Inr (int64_of_float64 ext x, n'))) \<and>
   (parseInt ext (bytesOf ''-1'') = (- 1, None) \<longrightarrow>
      (\<exists>n n'. newFromNumber (bytesOf ''-1'') = Inr n \<and>
          Uint64 ext n = Inr (0xFFFFFFFFFFFFFFFF, n') \<and> unat (u64 n') = 18446744073709551615))"
proof (intro conjI impI)
  assume "parseNumber ext v = Inr (v', None)"
  then show "parsed v'"
    by (cases "valueBytes v")
      (auto simp: parseNumber_def Let_def readByte_def split: prod.splits option.splits if_splits)
next
  assume "parseNumber ext v = Inr (v', None)"
  then show "if 0x2E \<in> set (valueBytes v) then
         i64 v' = int64_of_float64 ext (f64 v') \<and> u64 v' = uint64_of_float64 ext (f64 v')
       else if take 1 (valueBytes v) = [0x2D] then
         u64 v' = ucast (i64 v') \<and> f64 v' = float64_of_int64 ext (i64 v')
       else i64 v' = ucast (u64 v') \<and> f64 v' = float64_of_uint64 ext (u64 v')"
    by (cases "valueBytes v")
      (auto simp: parseNumber_def Let_def readByte_def split: prod.splits option.splits if_splits)
next
  assume "parseFloat ext (bytesOf ''3.9'') = (x, None)"
  then show "\<exists>n n'. newFromNumber (bytesOf ''3.9'') = Inr n \<and>
      Int64 ext n = Inr (int64_of_float64 ext x, n')"
    by (simp add: newFromNumber_def Int64.simps number_defs bytesOf_def)
next
  have m: "unat (- 1 :: 64 word) = 18446744073709551615"
    by (simp add: unsigned_minus_1_eq_mask mask_eq_exp_minus_1)
  assume "parseInt ext (bytesOf ''-1'') = (- 1, None)"
  then show "\<exists>n n'. newFromNumber (bytesOf ''-1'') = Inr n \<and>
      Uint64 ext n = Inr (0xFFFFFFFFFFFFFFFF, n') \<and> unat (u64 n') = 18446744073709551615"
    by (simp add: newFromNumber_def Uint64.simps number_defs bytesOf_def m)
qed

theorem parseNumber_cached_values_witness:
  "parseFloat refEnv (bytesOf ''3.9'') = (39 / 10, None) \<and>
   (\<exists>v'. parseNumber refEnv (new\<lparr>valueType := Number, valueBytes := bytesOf ''3.9''\<rparr>)
            = Inr (v', None) \<and> parsed v' \<and> i64 v' = 3 \<and> u64 v' = 3 \<and> f64 v' = 39 / 10) \<and>
   (\<exists>n n'. newFromNumber (bytesOf ''3.9'') = Inr n \<and> Int64 refEnv n = Inr (3, n')) \<and>
   parseInt refEnv (bytesOf ''-1'') = (- 1, None) \<and>
   (\<exists>n n'. newFromNumber (bytesOf ''-1'') = Inr n \<and>
       Uint64 refEnv n = Inr (0xFFFFFFFFFFFFFFFF, n') \<and> unat (u64 n') = 18446744073709551615)"
proof -
  let ?v = "new\<lparr>valueType := Number, valueBytes := bytesOf ''3.9''\<rparr> :: real V"
  let ?v' = "?v\<lparr>floated := True, f64 := 39 / 10, parsed := True, negative := False,
                 i64 := 3, u64 := 3\<rparr>"
  have f: "parseFloat refEnv (bytesOf ''3.9'') = (39 / 10, None)"
    by (simp add: refEnv_def refParseFloat_def bytesOf_def)
  have t: "int64_of_float64 refEnv (39 / 10) = 3" "uint64_of_float64 refEnv (39 / 10) = 3"
    "float64_lt_zero refEnv (39 / 10) = False"
    by (simp_all add: refEnv_def truncate_def)
  have p: "parseNumber refEnv ?v = Inr (?v', None)"
    using f t by (simp add: parseNumber_def bytesOf_def new_def)
  have i: "parseInt refEnv (bytesOf ''-1'') = (- 1, None)"
    by (simp add: refEnv_def refParseInt_def bytesOf_def)
  have "parsed ?v' \<and> i64 ?v' = 3 \<and> u64 ?v' = 3 \<and> f64 ?v' = 39 / 10"
    by simp
  with p f t i parseNumber_cached_values [of refEnv ?v ?v' "39 / 10"] show ?thesis
    by (simp del: One_nat_def)
qed

section \<open>Accessors on a node of another variant\<close>

text \<open>
  On a node that is neither a number nor a string the numeric accessors answer
  with zero, as their comments say; on a string node they answer with the number
  that \<open>parseNumber\<close> reads from the text, or with zero when it returns an error.
  \<open>Int64\<close> stands for all of them here.
\<close>

lemma parseNumber_parsed:
  assumes "parseNumber ext v = Inr (v', None)"
  shows "parsed v'"
  using assms
  by (cases "valueBytes v")
    (auto simp: parseNumber_def Let_def readByte_def split: prod.splits option.splits if_splits)

lemma Int64_NewInt_0: "Int64 ext NewInt_0 = Inr (0, NewInt_0)"
  by (simp add: Int64.simps NewInt_0_def lazyParse_def new_def)

lemma Int64_NewInt64_0: "Int64 ext NewInt64_0 = Inr (0, NewInt64_0)"
  by (simp add: Int64.simps NewInt64_0_def lazyParse_def new_def)

lemma Int64_other_variant:
  "valueType v \<noteq> Number \<Longrightarrow> valueType v \<noteq> String \<Longrightarrow> Int64 ext v = Inr (0, v)"
  by (simp add: Int64.simps [of ext v] Int64_NewInt_0 getNumberFromNotNumberValue_def
      IsString_def)

lemma Int64_String_node:
  assumes "valueType v = String"
  shows "Int64 ext v =
     (case parseNumber ext (new\<lparr>valueType := Number, valueBytes := str v\<rparr>) of
        Inl e \<Rightarrow> Inl e
      | Inr (n, Some e) \<Rightarrow> Inr (0, v)
      | Inr (n, None) \<Rightarrow> Inr (i64 n, v))"
proof (cases "parseNumber ext (new\<lparr>valueType := Number, valueBytes := str v\<rparr>)")
  case (Inl e)
  with assms show ?thesis
    by (simp add: Int64.simps [of ext v] getNumberFromNotNumberValue_def IsString_def
        newFromNumber_def)
next
  case (Inr p)
  obtain n err where p: "p = (n, err)"
    by (cases p)
  show ?thesis
  proof (cases err)
    case None
    have "valueType n = Number" "parsed n"
      using parseNumber_valueType [of ext _ n None] parseNumber_parsed [of ext _ n] Inr p None
      by auto
    with assms Inr p None show ?thesis
      by (simp add: Int64.simps [of ext v] Int64.simps [of ext n]
          getNumberFromNotNumberValue_def IsString_def newFromNumber_def lazyParse_def)
  next
    case (Some e)
    with assms Inr p show ?thesis
      by (simp add: Int64.simps [of ext v] Int64_NewInt64_0 getNumberFromNotNumberValue_def
          IsString_def newFromNumber_def)
  qed
qed

text \<open>
  C7. The claim has a numeric accessor on a string node return the parsed number,
  or zero when the parse fails. On the string node of empty text, which
  \<open>Unmarshal\<close> returns for the text \<open>""\<close>, \<open>getNumberFromNotNumberValue\<close> builds a
  number node of empty \<open>valueBytes\<close> and \<open>parseNumber\<close> reads \<open>b[0]\<close> of it: the
  accessor does not return, the index is out of range.
\<close>

theorem Int64_empty_string_node:
  "Int64 ext (new\<lparr>valueType := String, parsed := True\<rparr>) = Inl IndexOutOfRange \<and>
   (\<exists>v. Unmarshal refEnv [0x22, 0x22] = Inr v \<and> IsString v \<and> str v = [] \<and>
        Int64 refEnv v = Inl IndexOutOfRange)"
  by (simp add: Int64.simps getNumberFromNotNumberValue_def number_defs unmarshal_defs
      refEnv_def refParseString_def)

section \<open>The caseless key index\<close>

lemma object_addCaselessKey: "object (addCaselessKey toLower v k) = object v"
  by (simp add: addCaselessKey_def Let_def)

lemma object_delCaselessKey: "object (delCaselessKey toLower v k) = object v"
  by (simp add: delCaselessKey_def Let_def split: option.splits)

lemma object_setToObjectChildren:
  "object (setToObjectChildren toLower v k child) = (object v)(k \<mapsto> child)"
  by (simp add: setToObjectChildren_def object_addCaselessKey)

lemma object_delFromObjectChildren:
  "object (delFromObjectChildren toLower v k) = (object v)(k := None)"
  by (simp add: delFromObjectChildren_def object_delCaselessKey)

lemma lowerCaseKeys_addCaselessKey:
  "lowerCaseKeys (addCaselessKey toLower v k) lowerK =
     (if lowerK = toLower k
      then Some (insert k (case lowerCaseKeys v lowerK of None \<Rightarrow> {} | Some keys \<Rightarrow> keys))
      else lowerCaseKeys v lowerK)"
  by (simp add: addCaselessKey_def Let_def)

lemma lowerCaseKeys_delCaselessKey:
  "lowerCaseKeys (delCaselessKey toLower v k) lowerK =
     (if lowerK = toLower k
      then (case lowerCaseKeys v lowerK of
              None \<Rightarrow> None
            | Some keys \<Rightarrow> if keys - {k} = {} then None else Some (keys - {k}))
      else lowerCaseKeys v lowerK)"
  by (simp add: delCaselessKey_def Let_def split: option.splits)

lemma lowerCaseKeys_setToObjectChildren:
  "lowerCaseKeys (setToObjectChildren toLower v k child) lowerK =
     (if lowerK = toLower k
      then Some (insert k (case lowerCaseKeys v lowerK of None \<Rightarrow> {} | Some keys \<Rightarrow> keys))
      else lowerCaseKeys v lowerK)"
  by (simp add: setToObjectChildren_def lowerCaseKeys_addCaselessKey)

lemma lowerCaseKeys_delFromObjectChildren:
  "lowerCaseKeys (delFromObjectChildren toLower v k) lowerK =
     (if lowerK = toLower k
      then (case lowerCaseKeys v lowerK of
              None \<Rightarrow> None
            | Some keys \<Rightarrow> if keys - {k} = {} then None else Some (keys - {k}))
      else lowerCaseKeys v lowerK)"
  by (simp add: delFromObjectChildren_def lowerCaseKeys_delCaselessKey)

lemma caselessInvariant_bucket:
  assumes "caselessInvariant toLower v"
  shows "lowerCaseKeys v lowerK =
     (if {k \<in> dom (object v). toLower k = lowerK} = {} then None
      else Some {k \<in> dom (object v). toLower k = lowerK})"
proof (cases "lowerCaseKeys v lowerK")
  case None
  have "toLower k \<noteq> lowerK" if "k \<in> dom (object v)" for k
  proof -
    from assms that obtain ks where "lowerCaseKeys v (toLower k) = Some ks"
      unfolding caselessInvariant_def by blast
    with None show ?thesis
      by auto
  qed
  with None show ?thesis
    by auto
next
  case (Some keys)
  have ne: "keys \<noteq> {}" and sub: "\<And>k. k \<in> keys \<Longrightarrow> k \<in> dom (object v) \<and> toLower k = lowerK"
    using assms Some unfolding caselessInvariant_def by blast+
  have sup: "k \<in> keys" if "k \<in> dom (object v)" "toLower k = lowerK" for k
  proof -
    from assms that(1) obtain ks where "lowerCaseKeys v (toLower k) = Some ks" "k \<in> ks"
      unfolding caselessInvariant_def by blast
    with that(2) Some show ?thesis
      by simp
  qed
  have "keys = {k \<in> dom (object v). toLower k = lowerK}"
    using sub sup by blast
  with ne Some show ?thesis
    by auto
qed

lemma caselessInvariant_setToObjectChildren:
  assumes inv: "caselessInvariant toLower v"
  shows "caselessInvariant toLower (setToObjectChildren toLower v k child)"
proof -
  let ?v = "setToObjectChildren toLower v k child"
  have obj: "dom (object ?v) = insert k (dom (object v))"
    by (simp add: object_setToObjectChildren)
  note idx = lowerCaseKeys_setToObjectChildren [of toLower v k child]
  have a: "\<exists>keys. lowerCaseKeys ?v (toLower ka) = Some keys \<and> ka \<in> keys"
    if "ka \<in> dom (object ?v)" for ka
  proof (cases "toLower ka = toLower k")
    case True
    show ?thesis
    proof (cases "ka = k")
      case True
      then show ?thesis by (simp add: idx)
    next
      case False
      with that obj have "ka \<in> dom (object v)" by auto
      with inv obtain keys where "lowerCaseKeys v (toLower ka) = Some keys" "ka \<in> keys"
        unfolding caselessInvariant_def by blast
      with True show ?thesis by (simp add: idx)
    qed
  next
    case False
    with that obj have "ka \<in> dom (object v)" by auto
    with inv obtain keys where "lowerCaseKeys v (toLower ka) = Some keys" "ka \<in> keys"
      unfolding caselessInvariant_def by blast
    with False show ?thesis by (simp add: idx)
  qed
  have b: "keys \<noteq> {} \<and> (\<forall>ka. ka \<in> keys \<longrightarrow> ka \<in> dom (object ?v) \<and> toLower ka = lowerK)"
    if "lowerCaseKeys ?v lowerK = Some keys" for lowerK keys
  proof (cases "lowerK = toLower k")
    case True
    show ?thesis
    proof (cases "lowerCaseKeys v lowerK")
      case None
      with that True show ?thesis by (auto simp: idx obj)
    next
      case (Some old)
      with inv have "\<forall>ka. ka \<in> old \<longrightarrow> ka \<in> dom (object v) \<and> toLower ka = lowerK"
        unfolding caselessInvariant_def by blast
      with that True Some show ?thesis by (auto simp: idx obj)
    qed
  next
    case False
    with that have "lowerCaseKeys v lowerK = Some keys" by (simp add: idx)
    with inv have "keys \<noteq> {} \<and> (\<forall>ka. ka \<in> keys \<longrightarrow> ka \<in> dom (object v) \<and> toLower ka = lowerK)"
      unfolding caselessInvariant_def by blast
    then show ?thesis by (auto simp: obj)
  qed
  from a b show ?thesis
    unfolding caselessInvariant_def by blast
qed

lemma caselessInvariant_delFromObjectChildren:
  assumes inv: "caselessInvariant toLower v"
  shows "caselessInvariant toLower (delFromObjectChildren toLower v k)"
proof -
  let ?v = "delFromObjectChildren toLower v k"
  have obj: "dom (object ?v) = dom (object v) - {k}"
    by (simp add: object_delFromObjectChildren)
  note idx = lowerCaseKeys_delFromObjectChildren [of toLower v k]
  have a: "\<exists>keys. lowerCaseKeys ?v (toLower ka) = Some keys \<and> ka \<in> keys"
    if "ka \<in> dom (object ?v)" for ka
  proof -
    from that obj have ne: "ka \<noteq> k" and d: "ka \<in> dom (object v)"
      by auto
    from inv d obtain keys where b: "lowerCaseKeys v (toLower ka) = Some keys" "ka \<in> keys"
      unfolding caselessInvariant_def by blast
    from b ne have "keys - {k} \<noteq> {}" and "ka \<in> keys - {k}"
      by auto
    with b show ?thesis
      by (cases "toLower ka = toLower k") (auto simp: idx)
  qed
  have b: "keys \<noteq> {} \<and> (\<forall>ka. ka \<in> keys \<longrightarrow> ka \<in> dom (object ?v) \<and> toLower ka = lowerK)"
    if "lowerCaseKeys ?v lowerK = Some keys" for lowerK keys
  proof (cases "lowerK = toLower k")
    case True
    with that obtain old where o: "lowerCaseKeys v lowerK = Some old" "old - {k} \<noteq> {}"
      "keys = old - {k}"
      by (auto simp: idx split: option.splits if_splits)
    from inv o(1) have "\<forall>ka. ka \<in> old \<longrightarrow> ka \<in> dom (object v) \<and> toLower ka = lowerK"
      unfolding caselessInvariant_def by blast
    with o show ?thesis by (auto simp: obj)
  next
    case False
    with that have l: "lowerCaseKeys v lowerK = Some keys" by (simp add: idx)
    with inv have h: "keys \<noteq> {} \<and> (\<forall>ka. ka \<in> keys \<longrightarrow> ka \<in> dom (object v) \<and> toLower ka = lowerK)"
      unfolding caselessInvariant_def by blast
    with False have "k \<notin> keys" by auto
    with h show ?thesis by (auto simp: obj)
  qed
  from a b show ?thesis
    unfolding caselessInvariant_def by blast
qed

text \<open>
  C9. The invariant holds of a new object and is kept by every insert and every
  delete of a key: each key of the primary mapping is in the bucket under its
  lowercase form, each bucket holds exactly the keys of the primary mapping with
  that lowercase form, and no bucket is empty. After an insert the bucket of the key
  is the keys of that lowercase form with the new one; after a delete it is those
  keys without the deleted one, and the bucket is gone from the index when no other
  key is left in it. A bucket is a set, so a key is in it once.
\<close>

theorem caselessInvariant_preserved:
  "caselessInvariant toLower (newObject :: 'v children) \<and>
   (caselessInvariant toLower (v :: 'v children) \<longrightarrow>
      caselessInvariant toLower (setToObjectChildren toLower v k child) \<and>
      caselessInvariant toLower (delFromObjectChildren toLower v k) \<and>
      (\<forall>lowerK. lowerCaseKeys v lowerK =
         (if {k' \<in> dom (object v). toLower k' = lowerK} = {} then None
          else Some {k' \<in> dom (object v). toLower k' = lowerK})) \<and>
      lowerCaseKeys (setToObjectChildren toLower v k child) (toLower k) =
        Some (insert k {k' \<in> dom (object v). toLower k' = toLower k}) \<and>
      lowerCaseKeys (delFromObjectChildren toLower v k) (toLower k) =
        (if {k' \<in> dom (object v). toLower k' = toLower k} \<subseteq> {k} then None
         else Some ({k' \<in> dom (object v). toLower k' = toLower k} - {k}))) \<and>
   (lowerCaseKeys v (toLower k) = Some {k} \<longrightarrow>
      lowerCaseKeys (delCaselessKey toLower v k) (toLower k) = None)"
proof (intro conjI impI)
  show "caselessInvariant toLower (newObject :: 'v children)"
    by (simp add: caselessInvariant_def newObject_def)
next
  assume "caselessInvariant toLower v"
  then show "caselessInvariant toLower (setToObjectChildren toLower v k child)"
    by (rule caselessInvariant_setToObjectChildren)
next
  assume "caselessInvariant toLower v"
  then show "caselessInvariant toLower (delFromObjectChildren toLower v k)"
    by (rule caselessInvariant_delFromObjectChildren)
next
  assume "caselessInvariant toLower v"
  then show "\<forall>lowerK. lowerCaseKeys v lowerK =
         (if {k' \<in> dom (object v). toLower k' = lowerK} = {} then None
          else Some {k' \<in> dom (object v). toLower k' = lowerK})"
    using caselessInvariant_bucket [of toLower v] by blast
next
  assume inv: "caselessInvariant toLower v"
  let ?S = "{k' \<in> dom (object v). toLower k' = toLower k}"
  have b: "lowerCaseKeys v (toLower k) = (if ?S = {} then None else Some ?S)"
    by (rule caselessInvariant_bucket [OF inv])
  show "lowerCaseKeys (setToObjectChildren toLower v k child) (toLower k) = Some (insert k ?S)"
  proof (cases "?S = {}")
    case True
    with b have "lowerCaseKeys v (toLower k) = None"
      by simp
    with True show ?thesis
      by (simp only: lowerCaseKeys_setToObjectChildren) simp
  next
    case False
    with b have "lowerCaseKeys v (toLower k) = Some ?S"
      by simp
    then show ?thesis
      by (simp only: lowerCaseKeys_setToObjectChildren) simp
  qed
next
  assume inv: "caselessInvariant toLower v"
  let ?S = "{k' \<in> dom (object v). toLower k' = toLower k}"
  have b: "lowerCaseKeys v (toLower k) = (if ?S = {} then None else Some ?S)"
    by (rule caselessInvariant_bucket [OF inv])
  show "lowerCaseKeys (delFromObjectChildren toLower v k) (toLower k) =
        (if ?S \<subseteq> {k} then None else Some (?S - {k}))"
  proof (cases "?S = {}")
    case True
    with b have "lowerCaseKeys v (toLower k) = None"
      by simp
    with True show ?thesis
      by (simp only: lowerCaseKeys_delFromObjectChildren) simp
  next
    case False
    with b have "lowerCaseKeys v (toLower k) = Some ?S"
      by simp
    then show ?thesis
      by (simp only: lowerCaseKeys_delFromObjectChildren Diff_eq_empty_iff) simp
  qed
next
  assume "lowerCaseKeys v (toLower k) = Some {k}"
  then show "lowerCaseKeys (delCaselessKey toLower v k) (toLower k) = None"
    by (simp add: lowerCaseKeys_delCaselessKey)
qed

theorem caselessInvariant_preserved_witness:
  "caselessInvariant asciiLower (newObject :: unit children) \<and>
   caselessInvariant asciiLower oneKey \<and>
   caselessInvariant asciiLower twoKeys \<and>
   lowerCaseKeys twoKeys (bytesOf ''ab'') = Some {bytesOf ''Ab'', bytesOf ''aB''} \<and>
   caselessInvariant asciiLower (delFromObjectChildren asciiLower twoKeys (bytesOf ''Ab'')) \<and>
   lowerCaseKeys (delFromObjectChildren asciiLower twoKeys (bytesOf ''Ab'')) (bytesOf ''ab'')
     = Some {bytesOf ''aB''} \<and>
   caselessInvariant asciiLower (delFromObjectChildren asciiLower oneKey (bytesOf ''Ab'')) \<and>
   lowerCaseKeys oneKey (asciiLower (bytesOf ''Ab'')) = Some {bytesOf ''Ab''} \<and>
   lowerCaseKeys (delFromObjectChildren asciiLower oneKey (bytesOf ''Ab'')) (bytesOf ''ab'') = None \<and>
   lowerCaseKeys (delCaselessKey asciiLower oneKey (bytesOf ''Ab'')) (bytesOf ''ab'') = None"
proof -
  let ?Ab = "bytesOf ''Ab''" and ?aB = "bytesOf ''aB''" and ?ab = "bytesOf ''ab''"
  have l: "asciiLower ?Ab = ?ab" "asciiLower ?aB = ?ab"
    by (simp_all add: asciiLower_def bytesOf_def)
  have ne: "?Ab \<noteq> ?aB" "?aB \<noteq> ?Ab"
    by (simp_all add: bytesOf_def)
  have d1: "dom (object oneKey) = {?Ab}"
    by (simp add: oneKey_def object_setToObjectChildren newObject_def)
  have d2: "dom (object twoKeys) = {?Ab, ?aB}"
    by (auto simp: twoKeys_def object_setToObjectChildren d1)
  have s1: "{k' \<in> dom (object oneKey). asciiLower k' = ?ab} = {?Ab}"
    using l by (auto simp: d1)
  have s2: "{k' \<in> dom (object twoKeys). asciiLower k' = ?ab} = {?Ab, ?aB}"
    using l by (auto simp: d2)
  have i0: "caselessInvariant asciiLower (newObject :: unit children)"
    by (rule caselessInvariant_preserved [of asciiLower "newObject :: unit children" "[]" "()",
          THEN conjunct1])
  note n1 = caselessInvariant_preserved [of asciiLower "newObject :: unit children" "bytesOf ''Ab''" "()", THEN conjunct2, THEN conjunct1, THEN mp, OF i0]
  have i1: "caselessInvariant asciiLower oneKey"
    unfolding oneKey_def by (rule n1 [THEN conjunct1])
  note o1 = caselessInvariant_preserved [of asciiLower "oneKey" "bytesOf ''aB''" "()", THEN conjunct2, THEN conjunct1, THEN mp, OF i1]
  have i2: "caselessInvariant asciiLower twoKeys"
    unfolding twoKeys_def by (rule o1 [THEN conjunct1])
  have b2: "lowerCaseKeys twoKeys ?ab = Some {?Ab, ?aB}"
    using o1 [THEN conjunct2, THEN conjunct2, THEN conjunct2, THEN conjunct1]
    unfolding l s1 twoKeys_def [symmetric] by (simp add: insert_commute)
  note o2 = caselessInvariant_preserved [of asciiLower "oneKey" "bytesOf ''Ab''" "()", THEN conjunct2, THEN conjunct1, THEN mp, OF i1]
  have t1: "caselessInvariant asciiLower (delFromObjectChildren asciiLower oneKey ?Ab)"
    by (rule o2 [THEN conjunct2, THEN conjunct1])
  have b1: "lowerCaseKeys oneKey (asciiLower ?Ab) = Some {?Ab}"
    using o2 [THEN conjunct2, THEN conjunct2, THEN conjunct1, THEN spec, of ?ab]
    unfolding l s1 by simp
  have t1': "lowerCaseKeys (delFromObjectChildren asciiLower oneKey ?Ab) ?ab = None"
    using o2 [THEN conjunct2, THEN conjunct2, THEN conjunct2, THEN conjunct2]
    unfolding l s1 by simp
  have t3: "lowerCaseKeys (delCaselessKey asciiLower oneKey ?Ab) ?ab = None"
    using b1 caselessInvariant_preserved [of asciiLower oneKey ?Ab "()",
        THEN conjunct2, THEN conjunct2, THEN mp]
    unfolding l by simp
  note w2 = caselessInvariant_preserved [of asciiLower "twoKeys" "bytesOf ''Ab''" "()", THEN conjunct2, THEN conjunct1, THEN mp, OF i2]
  have t2: "caselessInvariant asciiLower (delFromObjectChildren asciiLower twoKeys ?Ab)"
    by (rule w2 [THEN conjunct2, THEN conjunct1])
  have t2': "lowerCaseKeys (delFromObjectChildren asciiLower twoKeys ?Ab) ?ab = Some {?aB}"
    using w2 [THEN conjunct2, THEN conjunct2, THEN conjunct2, THEN conjunct2] ne
    unfolding l s2 by auto
  from i0 i1 i2 b2 t2 t2' t1 b1 t1' t3 show ?thesis
    by (intro conjI)
qed

end
